theory Spec2Isabelle
  imports Main
begin

section \<open>Values, errors and the external libraries\<close>

text \<open>
  A Python \<open>str\<close> is a sequence of Unicode code points; a table cell read by pandas
  from a CSV file is either a string or the missing value \<open>NaN\<close> (a float).
\<close>

type_synonym pystr = "nat list"

datatype cell = Str pystr | NaN

datatype error = AttributeError | TypeError | ValueError | IndexError

text \<open>
  \<open>unidecode.unidecode\<close> keeps every ASCII code point and replaces every other code
  point by the entry of the library's transliteration table, which is the parameter
  \<open>tab\<close> (an absent entry is the empty string). \<open>str.upper\<close> maps \<open>a..z\<close> to
  \<open>A..Z\<close>, keeps the other ASCII code points, and maps a code point beyond ASCII by
  the Unicode upper-case mapping, the parameter \<open>up\<close>.
\<close>

definition unidecode :: "(nat \<Rightarrow> pystr) \<Rightarrow> pystr \<Rightarrow> pystr" where
  "unidecode tab text = concat (map (\<lambda>c. if c < 128 then [c] else tab c) text)"

definition upper :: "(nat \<Rightarrow> pystr) \<Rightarrow> pystr \<Rightarrow> pystr" where
  "upper up text =
     concat (map (\<lambda>c. if 97 \<le> c \<and> c \<le> 122 then [c - 32]
                      else if c < 128 then [c] else up c) text)"

definition ascii_table :: "(nat \<Rightarrow> pystr) \<Rightarrow> bool" where
  "ascii_table tab \<longleftrightarrow> (\<forall>c. \<forall>d \<in> set (tab c). d < 128)"

section \<open>Normalisation\<close>

text \<open>
  \<open>preprocess_text(text)\<close> is \<open>unidecode.unidecode(text).upper()\<close>. On a float
  (a missing cell) \<open>unidecode\<close> raises, since a float has no method \<open>encode\<close>.
\<close>

definition preprocess_text :: "(nat \<Rightarrow> pystr) \<Rightarrow> (nat \<Rightarrow> pystr) \<Rightarrow> cell \<Rightarrow> error + cell" where
  "preprocess_text tab up text =
     (case text of
        Str s \<Rightarrow> Inr (Str (upper up (unidecode tab s)))
      | NaN \<Rightarrow> Inl AttributeError)"

text \<open>\<open>Series.apply(f)\<close>: \<open>f\<close> on every value in order; the first exception ends it.\<close>

fun apply_series :: "('a \<Rightarrow> error + 'b) \<Rightarrow> 'a list \<Rightarrow> error + 'b list" where
  "apply_series f [] = Inr []"
| "apply_series f (v # vs) =
     (case f v of
        Inl e \<Rightarrow> Inl e
      | Inr w \<Rightarrow> (case apply_series f vs of Inl e \<Rightarrow> Inl e | Inr ws \<Rightarrow> Inr (w # ws)))"

text \<open>
  A row of the uploaded table: the two name columns and the columns passed through
  (\<open>Country\<close> and any other). The frame is the list of its rows, in order; its index
  is the range index \<open>0..n-1\<close> of \<open>pd.read_csv\<close>.
\<close>

record urow =
  Company :: cell
  Government_entity :: cell
  passthrough :: "cell list"

definition preprocess_dataset ::
  "(nat \<Rightarrow> pystr) \<Rightarrow> (nat \<Rightarrow> pystr) \<Rightarrow> urow list \<Rightarrow> error + urow list" where
  "preprocess_dataset tab up df =
     (case apply_series (preprocess_text tab up) (map Company df) of
        Inl e \<Rightarrow> Inl e
      | Inr cs \<Rightarrow>
         (case apply_series (preprocess_text tab up) (map Government_entity df) of
            Inl e \<Rightarrow> Inl e
          | Inr gs \<Rightarrow>
             Inr (map (\<lambda>(r, c, g). r\<lparr>Company := c, Government_entity := g\<rparr>)
                      (zip df (zip cs gs)))))"

section \<open>The reference registry and the exact matcher\<close>

text \<open>
  A row of the registry frames \<open>unique_companies\<close> and \<open>unique_governments\<close>, as
  \<open>load_remote_dataset\<close> hands them to \<open>main\<close> (the remote fetch itself is outside
  the model). The columns of the upload are taken to bear other names than those of
  the registry, so that the merges add no suffix to a column name.
\<close>

record rrow =
  company_name :: cell
  government_entity :: cell
  eiti_id_company :: cell
  eiti_id_government :: cell
  other_columns :: "cell list"

text \<open>
  \<open>pd.merge(left, right, left_on=.., right_on=.., how='inner')\<close>: one row for every
  pair of a left and a right row with equal keys, in the order of the left rows and,
  for one left row, in the order of the right rows. (The later merges read the pairs
  of one key at a time, so only the order among these matters.)
\<close>

definition merge_inner ::
  "('a \<Rightarrow> cell) \<Rightarrow> ('b \<Rightarrow> cell) \<Rightarrow> 'a list \<Rightarrow> 'b list \<Rightarrow> ('a \<times> 'b) list" where
  "merge_inner left_on right_on left right =
     concat (map (\<lambda>l. map (Pair l) (filter (\<lambda>r. right_on r = left_on l) right)) left)"

text \<open>
  \<open>pd.merge(left, right[[key, value]], on=key, how='left')\<close>: every left row, in
  order, once for each right row with its key (in the order of the right rows), and
  once with a missing value when no right row has its key.
\<close>

definition merge_left ::
  "('a \<Rightarrow> cell) \<Rightarrow> 'a list \<Rightarrow> (cell \<times> cell) list \<Rightarrow> ('a \<times> cell) list" where
  "merge_left key left right =
     concat (map (\<lambda>l. case filter (\<lambda>kv. fst kv = key l) right of
                          [] \<Rightarrow> [(l, NaN)]
                        | m # ms \<Rightarrow> map (\<lambda>kv. (l, snd kv)) (m # ms)) left)"

section \<open>The fuzzy matcher and the operator's decisions\<close>

text \<open>
  A row of \<open>unmatched_companies\<close> or \<open>unmatched_governments\<close>: a row of the upload
  under the index label it has there, with the two columns added by \<open>main\<close>.
\<close>

record mrow =
  idx :: nat
  row :: urow
  Potential_Match :: cell
  EITI_ID :: cell

text \<open>
  \<open>process.extractOne(query, choices)\<close> scores every choice with the library's scorer
  (the parameter \<open>scorer\<close>) and returns the first choice of the highest score, or
  \<open>None\<close> when there is no choice. \<open>get_potential_matches\<close> subscripts the result,
  which raises \<open>TypeError\<close> on \<open>None\<close>.
\<close>

definition extractOne :: "(cell \<Rightarrow> cell \<Rightarrow> nat) \<Rightarrow> cell \<Rightarrow> cell list \<Rightarrow> (cell \<times> nat) option" where
  "extractOne scorer query choices =
     (case choices of
        [] \<Rightarrow> None
      | c # cs \<Rightarrow>
          Some (foldl (\<lambda>best x. if snd best < scorer query x then (x, scorer query x) else best)
                      (c, scorer query c) cs))"

definition get_potential_matches ::
  "(cell \<Rightarrow> cell \<Rightarrow> nat) \<Rightarrow> cell list \<Rightarrow> cell list \<Rightarrow> error + cell list" where
  "get_potential_matches scorer unmatched_series remote_column =
     apply_series (\<lambda>x. case extractOne scorer x remote_column of
                          None \<Rightarrow> Inl TypeError
                        | Some best \<Rightarrow> Inr (fst best)) unmatched_series"

text \<open>The string \<open>No potential match\<close>, code point by code point.\<close>

definition no_potential_match :: pystr where
  "no_potential_match =
     [78, 111, 32, 112, 111, 116, 101, 110, 116, 105, 97, 108, 32, 109, 97, 116, 99, 104]"

text \<open>
  \<open>st.selectbox\<close> returns one of its options: the one at the position the operator
  picked, the first one when nothing was picked. The operator is the parameter
  \<open>pick\<close>, from the index label of the row (which is in the key of the widget) to a
  position in the options.
\<close>

definition selectbox :: "cell list \<Rightarrow> nat \<Rightarrow> cell" where
  "selectbox options k = options ! (if k < length options then k else 0)"

text \<open>\<open>==\<close> between a column and a value: a missing value equals nothing.\<close>

definition cell_eq :: "cell \<Rightarrow> cell \<Rightarrow> bool" where
  "cell_eq a b = (case a of Str x \<Rightarrow> (case b of Str y \<Rightarrow> x = y | NaN \<Rightarrow> False) | NaN \<Rightarrow> False)"

text \<open>\<open>frame.at[index, column] = value\<close>: the rows under that index label are updated.\<close>

definition at_set :: "nat \<Rightarrow> (mrow \<Rightarrow> mrow) \<Rightarrow> mrow list \<Rightarrow> mrow list" where
  "at_set i f frame = map (\<lambda>r. if idx r = i then f r else r) frame"

text \<open>
  \<open>display_unmatched\<close>: the loop over \<open>unmatched_df.iterrows()\<close>. The second argument
  is the rows still to visit, the last one the frame as updated so far. The index
  labels of the frame are distinct (it is a selection of rows of the upload), so
  \<open>unmatched_df.at[index, 'Potential_Match']\<close> reads back the option just stored.
  \<open>.values[0]\<close> raises \<open>IndexError\<close> on an empty selection.
\<close>

fun display_unmatched ::
  "(nat \<Rightarrow> nat) \<Rightarrow> rrow list \<Rightarrow> (rrow \<Rightarrow> cell) \<Rightarrow> (rrow \<Rightarrow> cell) \<Rightarrow> mrow list \<Rightarrow> mrow list
     \<Rightarrow> error + mrow list" where
  "display_unmatched pick remote_df remote_column id_column [] frame = Inr frame"
| "display_unmatched pick remote_df remote_column id_column (r # rs) frame =
     (let chosen = selectbox (Str no_potential_match # map remote_column remote_df) (pick (idx r));
          frame1 = at_set (idx r) (\<lambda>x. x\<lparr>Potential_Match := chosen\<rparr>) frame
      in if chosen \<noteq> Str no_potential_match
         then (case filter (\<lambda>e. cell_eq (remote_column e) chosen) remote_df of
                 [] \<Rightarrow> Inl IndexError
               | e # es \<Rightarrow>
                   display_unmatched pick remote_df remote_column id_column rs
                     (at_set (idx r) (\<lambda>x. x\<lparr>EITI_ID := id_column e\<rparr>) frame1))
         else display_unmatched pick remote_df remote_column id_column rs frame1)"

section \<open>Identifier assignment and the final merge\<close>

text \<open>
  \<open>generate_uuid()\<close> returns a random UUID; \<open>gen n\<close> is the value of its call number
  \<open>n\<close> in the run. Each loop of \<open>validate_matching\<close> visits the rows of a frame and
  stores a new identifier, by index label, where \<open>row['EITI ID'] == ''\<close>.
\<close>

fun fill_ids :: "(nat \<Rightarrow> pystr) \<Rightarrow> mrow list \<Rightarrow> mrow list \<times> nat \<Rightarrow> mrow list \<times> nat" where
  "fill_ids gen [] st = st"
| "fill_ids gen (r # rs) (frame, n) =
     (if EITI_ID r = Str []
      then fill_ids gen rs (at_set (idx r) (\<lambda>x. x\<lparr>EITI_ID := Str (gen n)\<rparr>) frame, Suc n)
      else fill_ids gen rs (frame, n))"

text \<open>The two loops, lines 51 to 57: first the companies, then the government entities.\<close>

definition assign_identifiers ::
  "(nat \<Rightarrow> pystr) \<Rightarrow> mrow list \<Rightarrow> mrow list \<Rightarrow> mrow list \<times> mrow list" where
  "assign_identifiers gen unmatched_companies unmatched_governments =
     (let st1 = fill_ids gen unmatched_companies (unmatched_companies, 0);
          st2 = fill_ids gen unmatched_governments (unmatched_governments, snd st1)
      in (fst st1, fst st2))"

text \<open>The two left merges, lines 59 and 60.\<close>

definition merge_identifiers ::
  "urow list \<Rightarrow> (urow \<times> rrow) list \<Rightarrow> (urow \<times> rrow) list \<Rightarrow> ((urow \<times> cell) \<times> cell) list" where
  "merge_identifiers df company_matches gov_matches =
     merge_left (\<lambda>m. Government_entity (fst m))
       (merge_left Company df
          (map (\<lambda>m. (Company (fst m), eiti_id_company (snd m))) company_matches))
       (map (\<lambda>m. (Government_entity (fst m), eiti_id_government (snd m))) gov_matches)"

text \<open>
  A pandas \<open>Series\<close> is a list of values under index labels. The merged frame has the
  range index; \<open>frame.set_index('Company')\<close> has the company names as labels.
\<close>

datatype label = IntL nat | KeyL cell

type_synonym series = "(label \<times> cell) list"

text \<open>
  \<open>s.combine_first(other)\<close> aligns the two series on their index labels (an outer
  join; the labels of \<open>s\<close> are distinct here) and keeps the value of \<open>s\<close> unless it is
  missing. \<open>s.reindex(index)\<close>, which \<open>df[column] = s\<close> applies with the index of \<open>df\<close>,
  raises \<open>ValueError\<close> when a label of \<open>s\<close> occurs twice, and else reads every label
  of the new index in \<open>s\<close>, a label absent from \<open>s\<close> giving a missing value.
\<close>

definition combine_first :: "series \<Rightarrow> series \<Rightarrow> series" where
  "combine_first s other =
     concat (map (\<lambda>lv. case filter (\<lambda>kw. fst kw = fst lv) other of
                          [] \<Rightarrow> [lv]
                        | m # ms \<Rightarrow> map (\<lambda>kw. (fst lv, if snd lv = NaN then snd kw else snd lv)) (m # ms)) s)
     @ filter (\<lambda>kw. fst kw \<notin> set (map fst s)) other"

definition reindex :: "series \<Rightarrow> label list \<Rightarrow> error + cell list" where
  "reindex s new_index =
     (if distinct (map fst s)
      then Inr (map (\<lambda>l. case map_of s l of Some v \<Rightarrow> v | None \<Rightarrow> NaN) new_index)
      else Inl ValueError)"

text \<open>
  Lines 62 and 63: \<open>df[c] = df[c].combine_first(unmatched.set_index(name)['EITI ID'])\<close>,
  for the column \<open>col\<close> of the merged frame and the series \<open>other\<close> of the unmatched
  frame. The unmatched rows are rows of the upload, so the merged frame has a row
  whenever \<open>other\<close> has one (pandas would give a frame without rows the index of the
  series assigned to it).
\<close>

definition fill_column :: "cell list \<Rightarrow> series \<Rightarrow> error + cell list" where
  "fill_column col other =
     reindex (combine_first (zip (map IntL [0..<length col]) col) other)
             (map IntL [0..<length col])"

text \<open>A row of the resolved table: the row of the upload and the two identifier columns.\<close>

record resolved =
  source :: urow
  out_eiti_id_company :: cell
  out_eiti_id_government :: cell

text \<open>The row of the resolved table made of a row of the merged frame.\<close>

definition as_resolved :: "(urow \<times> cell) \<times> cell \<Rightarrow> resolved" where
  "as_resolved m =
     \<lparr>source = fst (fst m), out_eiti_id_company = snd (fst m), out_eiti_id_government = snd m\<rparr>"

definition validate_matching ::
  "(nat \<Rightarrow> pystr) \<Rightarrow> urow list \<Rightarrow> (urow \<times> rrow) list \<Rightarrow> (urow \<times> rrow) list
     \<Rightarrow> mrow list \<Rightarrow> mrow list \<Rightarrow> error + resolved list" where
  "validate_matching gen df company_matches gov_matches unmatched_companies unmatched_governments =
     (let unmatched = assign_identifiers gen unmatched_companies unmatched_governments;
          merged = merge_identifiers df company_matches gov_matches
      in case fill_column (map (\<lambda>m. snd (fst m)) merged)
                (map (\<lambda>u. (KeyL (Company (row u)), EITI_ID u)) (fst unmatched)) of
           Inl e \<Rightarrow> Inl e
         | Inr cids \<Rightarrow>
            (case fill_column (map snd merged)
                    (map (\<lambda>u. (KeyL (Government_entity (row u)), EITI_ID u)) (snd unmatched)) of
               Inl e \<Rightarrow> Inl e
             | Inr gids \<Rightarrow>
                 Inr (map (\<lambda>(m, c, g). \<lparr>source = fst (fst m), out_eiti_id_company = c,
                                         out_eiti_id_government = g\<rparr>)
                          (zip merged (zip cids gids)))))"

section \<open>The pipeline\<close>

text \<open>
  \<open>main\<close> from line 79 on, with the button pressed. Its inputs are the upload \<open>df\<close>
  and the two registry frames that \<open>load_remote_dataset\<close> returns for the country of
  the first row of the upload; \<open>df['Country'].iloc[0]\<close> raises \<open>IndexError\<close> on an
  upload without rows. The run ends in the resolved table and the registry frames as
  it leaves them, or in the first exception raised.
\<close>

record outcome =
  resolved_table :: "resolved list"
  registry_companies :: "rrow list"
  registry_governments :: "rrow list"

definition unmatched_frame :: "(urow \<Rightarrow> cell) \<Rightarrow> urow list \<Rightarrow> cell list \<Rightarrow> (nat \<times> urow) list" where
  "unmatched_frame name df matched_names =
     filter (\<lambda>ir. name (snd ir) \<notin> set matched_names) (zip [0..<length df] df)"

definition main ::
  "(nat \<Rightarrow> pystr) \<Rightarrow> (nat \<Rightarrow> pystr) \<Rightarrow> (cell \<Rightarrow> cell \<Rightarrow> nat) \<Rightarrow> (nat \<Rightarrow> nat) \<Rightarrow> (nat \<Rightarrow> nat)
     \<Rightarrow> (nat \<Rightarrow> pystr) \<Rightarrow> urow list \<Rightarrow> rrow list \<Rightarrow> rrow list \<Rightarrow> error + outcome" where
  "main tab up scorer pick_company pick_government gen df0 unique_companies0 unique_governments0 =
     (if df0 = [] then Inl IndexError else
     (case preprocess_dataset tab up df0 of
        Inl e \<Rightarrow> Inl e
      | Inr df \<Rightarrow>
     (case apply_series (preprocess_text tab up) (map company_name unique_companies0) of
        Inl e \<Rightarrow> Inl e
      | Inr cnames \<Rightarrow>
     (case apply_series (preprocess_text tab up) (map government_entity unique_governments0) of
        Inl e \<Rightarrow> Inl e
      | Inr gnames \<Rightarrow>
     (let unique_companies =
            map (\<lambda>rn. (fst rn)\<lparr>company_name := snd rn\<rparr>) (zip unique_companies0 cnames);
          unique_governments =
            map (\<lambda>rn. (fst rn)\<lparr>government_entity := snd rn\<rparr>) (zip unique_governments0 gnames);
          company_matches = merge_inner Company company_name df unique_companies;
          gov_matches = merge_inner Government_entity government_entity df unique_governments;
          unmatched_companies =
            unmatched_frame Company df (map (\<lambda>m. Company (fst m)) company_matches);
          unmatched_governments =
            unmatched_frame Government_entity df (map (\<lambda>m. Government_entity (fst m)) gov_matches)
      in
     (case get_potential_matches scorer (map (\<lambda>ir. Company (snd ir)) unmatched_companies)
             (map company_name unique_companies) of
        Inl e \<Rightarrow> Inl e
      | Inr pm_companies \<Rightarrow>
     (case get_potential_matches scorer
             (map (\<lambda>ir. Government_entity (snd ir)) unmatched_governments)
             (map government_entity unique_governments) of
        Inl e \<Rightarrow> Inl e
      | Inr pm_governments \<Rightarrow>
     (let unmatched_companies1 =
            map (\<lambda>irp. \<lparr>idx = fst (fst irp), row = snd (fst irp), Potential_Match = snd irp,
                         EITI_ID = Str []\<rparr>) (zip unmatched_companies pm_companies);
          unmatched_governments1 =
            map (\<lambda>irp. \<lparr>idx = fst (fst irp), row = snd (fst irp), Potential_Match = snd irp,
                         EITI_ID = Str []\<rparr>) (zip unmatched_governments pm_governments)
      in
     (case display_unmatched pick_company unique_companies company_name eiti_id_company
             unmatched_companies1 unmatched_companies1 of
        Inl e \<Rightarrow> Inl e
      | Inr unmatched_companies2 \<Rightarrow>
     (case display_unmatched pick_government unique_governments government_entity
             eiti_id_government unmatched_governments1 unmatched_governments1 of
        Inl e \<Rightarrow> Inl e
      | Inr unmatched_governments2 \<Rightarrow>
     (case validate_matching gen df company_matches gov_matches
             unmatched_companies2 unmatched_governments2 of
        Inl e \<Rightarrow> Inl e
      | Inr out \<Rightarrow>
          Inr \<lparr>resolved_table = out, registry_companies = unique_companies,
               registry_governments = unique_governments\<rparr>)))))))))))"

subsection \<open>The loops on a frame with distinct index labels\<close>

text \<open>
  Two functions used in the proofs only: the rows that a loop of \<open>validate_matching\<close>
  leaves when it visits the rows of a frame one by one and gives the call number \<open>n\<close>
  and the following ones of \<open>generate_uuid\<close> to the rows with an empty \<open>EITI ID\<close>,
  and the number of these rows.
\<close>

fun minted :: "(nat \<Rightarrow> pystr) \<Rightarrow> nat \<Rightarrow> mrow list \<Rightarrow> mrow list" where
  "minted gen n [] = []"
| "minted gen n (r # rs) =
     (if EITI_ID r = Str [] then r\<lparr>EITI_ID := Str (gen n)\<rparr> # minted gen (Suc n) rs
      else r # minted gen n rs)"

definition unresolved :: "mrow list \<Rightarrow> nat" where
  "unresolved rs = length (filter (\<lambda>r. EITI_ID r = Str []) rs)"

subsection \<open>The identifier of an exact match\<close>

text \<open>
  A predicate used in the proofs only: \<open>c\<close> is the identifier of some row of the
  registry frame \<open>R\<close> whose name is \<open>k\<close>, or is missing when no row of \<open>R\<close> has the
  name \<open>k\<close>.
\<close>

definition exact_id :: "('e \<Rightarrow> cell) \<Rightarrow> ('e \<Rightarrow> cell) \<Rightarrow> 'e list \<Rightarrow> cell \<Rightarrow> cell \<Rightarrow> bool" where
  "exact_id kr idc R k c \<longleftrightarrow>
     (if \<exists>e \<in> set R. kr e = k then \<exists>e \<in> set R. kr e = k \<and> c = idc e else c = NaN)"

section \<open>Properties of the normalisation\<close>

lemma unidecode_ascii:
  assumes "ascii_table tab"
  shows "\<forall>d \<in> set (unidecode tab s). d < 128"
  using assms by (auto simp: unidecode_def ascii_table_def split: if_splits)

lemma upper_char:
  assumes "(c::nat) < 128"
    and "d \<in> set (if 97 \<le> c \<and> c \<le> 122 then [c - 32] else if c < 128 then [c] else up c)"
  shows "d < 128 \<and> \<not> (97 \<le> d \<and> d \<le> 122)"
proof (cases "97 \<le> c \<and> c \<le> 122")
  case True
  with assms(2) have "d = c - 32" by simp
  with True show ?thesis by linarith
next
  case False
  with assms have "d = c" by simp
  with False assms(1) show ?thesis by blast
qed

lemma upper_ascii_range:
  assumes "\<forall>d \<in> set s. d < 128"
  shows "\<forall>d \<in> set (upper up s). d < 128 \<and> \<not> (97 \<le> d \<and> d \<le> 122)"
proof
  fix d assume "d \<in> set (upper up s)"
  then obtain c where c: "c \<in> set s"
    and d: "d \<in> set (if 97 \<le> c \<and> c \<le> 122 then [c - 32] else if c < 128 then [c] else up c)"
    unfolding upper_def set_concat by auto
  from assms c have "c < 128" by blast
  with d show "d < 128 \<and> \<not> (97 \<le> d \<and> d \<le> 122)"
    by (rule upper_char [rotated])
qed

lemma unidecode_id_on_ascii:
  assumes "\<forall>d \<in> set s. d < 128"
  shows "unidecode tab s = s"
  using assms by (induction s) (auto simp: unidecode_def)

lemma upper_id_on_upper:
  assumes "\<forall>d \<in> set s. d < 128 \<and> \<not> (97 \<le> d \<and> d \<le> 122)"
  shows "upper up s = s"
  using assms by (induction s) (auto simp: upper_def)

lemma normal_form_fixed:
  assumes "ascii_table tab"
  shows "upper up (unidecode tab (upper up (unidecode tab s))) = upper up (unidecode tab s)"
proof -
  let ?n = "upper up (unidecode tab s)"
  have a: "\<forall>d \<in> set ?n. d < 128 \<and> \<not> (97 \<le> d \<and> d \<le> 122)"
    using upper_ascii_range [OF unidecode_ascii [OF assms]] .
  then have "\<forall>d \<in> set ?n. d < 128"
    by blast
  then have "unidecode tab ?n = ?n"
    by (rule unidecode_id_on_ascii)
  moreover have "upper up ?n = ?n"
    using a by (rule upper_id_on_upper)
  ultimately show ?thesis
    by (simp only:)
qed

text \<open>
  C3. With a transliteration table whose entries are ASCII strings and which sends
  \<open>e-acute\<close> (code point 233) to \<open>e\<close>, \<open>preprocess_text\<close> returns on every string, a
  second application returns its argument, and \<open>Societe\<close> written with two
  \<open>e-acute\<close> has the normal form of \<open>SOCIETE\<close>.
\<close>

theorem preprocess_text_idempotent:
  assumes "ascii_table tab" and "tab 233 = [101]"
  shows "(\<exists>y. preprocess_text tab up (Str x) = Inr (Str y)
              \<and> preprocess_text tab up (Str y) = Inr (Str y))
         \<and> preprocess_text tab up (Str [83, 111, 99, 105, 233, 116, 233])
             = preprocess_text tab up (Str [83, 79, 67, 73, 69, 84, 69])"
proof
  show "\<exists>y. preprocess_text tab up (Str x) = Inr (Str y)
              \<and> preprocess_text tab up (Str y) = Inr (Str y)"
    using normal_form_fixed [OF assms(1)] by (simp add: preprocess_text_def)
  show "preprocess_text tab up (Str [83, 111, 99, 105, 233, 116, 233])
             = preprocess_text tab up (Str [83, 79, 67, 73, 69, 84, 69])"
    using assms(2) by (simp add: preprocess_text_def unidecode_def upper_def)
qed

theorem preprocess_text_idempotent_witness:
  "ascii_table (\<lambda>c. if c = 233 then [101] else [])
   \<and> preprocess_text (\<lambda>c. if c = 233 then [101] else []) (\<lambda>c. [c]) (Str [233, 97])
       = Inr (Str [69, 65])
   \<and> preprocess_text (\<lambda>c. if c = 233 then [101] else []) (\<lambda>c. [c]) (Str [69, 65])
       = Inr (Str [69, 65])"
proof -
  have h: "ascii_table (\<lambda>c. if c = 233 then [101] else [])"
    by (simp add: ascii_table_def)
  have e: "preprocess_text (\<lambda>c. if c = 233 then [101] else []) (\<lambda>c. [c]) (Str [233, 97])
       = Inr (Str [69, 65])"
    by (simp add: preprocess_text_def unidecode_def upper_def)
  from preprocess_text_idempotent [OF h, of "\<lambda>c. [c]" "[233, 97]"] e h show ?thesis
    by simp
qed

section \<open>Properties of \<open>preprocess_dataset\<close>\<close>

lemma apply_series_Inr_iff:
  "apply_series f xs = Inr ys \<longleftrightarrow> map f xs = map Inr ys"
proof (induction xs arbitrary: ys)
  case Nil
  then show ?case by auto
next
  case (Cons x xs)
  show ?case
  proof (cases "f x")
    case (Inl e)
    then show ?thesis by (cases ys) auto
  next
    case (Inr w)
    show ?thesis
    proof (cases "apply_series f xs")
      case (Inl e)
      with Inr Cons.IH show ?thesis by (cases ys) auto
    next
      case r: (Inr ws)
      with Inr Cons.IH [of ws] Cons.IH show ?thesis by (cases ys) auto
    qed
  qed
qed

lemma apply_series_length:
  "apply_series f xs = Inr ys \<Longrightarrow> length ys = length xs"
  by (metis apply_series_Inr_iff length_map)

lemma preprocess_text_Str:
  "preprocess_text tab up (Str s) = Inr (Str (upper up (unidecode tab s)))"
  by (simp add: preprocess_text_def)

lemma preprocess_text_NaN:
  "preprocess_text tab up NaN = Inl AttributeError"
  by (simp add: preprocess_text_def)

lemma preprocess_series_missing:
  "NaN \<in> set cs \<Longrightarrow> apply_series (preprocess_text tab up) cs = Inl AttributeError"
proof (induction cs)
  case Nil
  then show ?case by simp
next
  case (Cons c cs)
  show ?case
  proof (cases c)
    case (Str s)
    with Cons show ?thesis by (simp add: preprocess_text_Str)
  next
    case NaN
    then show ?thesis by (simp add: preprocess_text_NaN)
  qed
qed

lemma preprocess_series_present:
  "NaN \<notin> set cs \<Longrightarrow> \<exists>ys. apply_series (preprocess_text tab up) cs = Inr ys"
proof (induction cs)
  case Nil
  then show ?case by simp
next
  case (Cons c cs)
  then obtain ys where "apply_series (preprocess_text tab up) cs = Inr ys" by auto
  moreover from Cons.prems obtain s where "c = Str s" by (cases c) auto
  ultimately show ?case by (simp add: preprocess_text_Str)
qed

text \<open>
  C10. \<open>preprocess_dataset\<close> raises exactly when a value of the column \<open>Company\<close>
  or of the column \<open>Government entity\<close> is missing: a missing name is neither
  skipped nor passed through, and a table of present strings is normalised.
\<close>

theorem preprocess_dataset_needs_strings:
  "(\<exists>e. preprocess_dataset tab up df = Inl e)
     \<longleftrightarrow> (\<exists>r \<in> set df. Company r = NaN \<or> Government_entity r = NaN)"
proof
  assume "\<exists>e. preprocess_dataset tab up df = Inl e"
  then obtain e where e: "preprocess_dataset tab up df = Inl e" ..
  show "\<exists>r \<in> set df. Company r = NaN \<or> Government_entity r = NaN"
  proof (rule ccontr)
    assume "\<not> ?thesis"
    then have "NaN \<notin> set (map Company df)" and "NaN \<notin> set (map Government_entity df)"
      by (auto simp: image_iff)
    then obtain cs gs where "apply_series (preprocess_text tab up) (map Company df) = Inr cs"
      and "apply_series (preprocess_text tab up) (map Government_entity df) = Inr gs"
      using preprocess_series_present by blast
    with e show False by (simp add: preprocess_dataset_def)
  qed
next
  assume "\<exists>r \<in> set df. Company r = NaN \<or> Government_entity r = NaN"
  then consider "NaN \<in> set (map Company df)" | "NaN \<in> set (map Government_entity df)"
    by (auto simp: image_iff) metis+
  then show "\<exists>e. preprocess_dataset tab up df = Inl e"
  proof cases
    case 1
    then show ?thesis
      by (simp add: preprocess_dataset_def preprocess_series_missing del: set_map)
  next
    case 2
    then show ?thesis
      by (simp add: preprocess_dataset_def preprocess_series_missing del: set_map split: sum.splits)
  qed
qed

theorem preprocess_dataset_needs_strings_witness:
  "preprocess_dataset (\<lambda>c. []) (\<lambda>c. [c])
     [\<lparr>Company = Str [97], Government_entity = NaN, passthrough = []\<rparr>] = Inl AttributeError"
proof -
  have "\<exists>r \<in> set [\<lparr>Company = Str [97], Government_entity = NaN, passthrough = []\<rparr>].
          Company r = NaN \<or> Government_entity r = NaN"
    by simp
  with preprocess_dataset_needs_strings [of "\<lambda>c. []" "\<lambda>c. [c]"
      "[\<lparr>Company = Str [97], Government_entity = NaN, passthrough = []\<rparr>]"]
  have "\<exists>e. preprocess_dataset (\<lambda>c. []) (\<lambda>c. [c])
     [\<lparr>Company = Str [97], Government_entity = NaN, passthrough = []\<rparr>] = Inl e"
    by blast
  then show ?thesis
    by (simp add: preprocess_dataset_def preprocess_text_Str preprocess_text_NaN)
qed

section \<open>The identifier loops\<close>

lemma at_set_fresh_label:
  "i \<notin> set (map idx frame) \<Longrightarrow> at_set i f frame = frame"
  by (induction frame) (auto simp: at_set_def)

lemma at_set_append:
  "at_set i f (xs @ ys) = at_set i f xs @ at_set i f ys"
  by (simp add: at_set_def)

lemma at_set_Cons:
  "at_set i f (r # rs) = (if idx r = i then f r else r) # at_set i f rs"
  by (simp add: at_set_def)

lemma fill_ids_positional:
  "distinct (map idx (pre @ todo)) \<Longrightarrow>
   fill_ids gen todo (pre @ todo, n) = (pre @ minted gen n todo, n + unresolved todo)"
proof (induction todo arbitrary: pre n)
  case Nil
  then show ?case by (simp add: unresolved_def)
next
  case (Cons r rs)
  from Cons.prems have d: "distinct (map idx ((pre @ [r]) @ rs))" by simp
  show ?case
  proof (cases "EITI_ID r = Str []")
    case True
    let ?r = "r\<lparr>EITI_ID := Str (gen n)\<rparr>"
    from Cons.prems have "idx r \<notin> set (map idx pre)" and "idx r \<notin> set (map idx rs)"
      by auto
    then have "at_set (idx r) (\<lambda>x. x\<lparr>EITI_ID := Str (gen n)\<rparr>) (pre @ r # rs) = (pre @ [?r]) @ rs"
      by (simp add: at_set_append at_set_Cons at_set_fresh_label del: set_map)
    moreover from d have "distinct (map idx ((pre @ [?r]) @ rs))" by simp
    from Cons.IH [OF this, of "Suc n"]
    have "fill_ids gen rs ((pre @ [?r]) @ rs, Suc n)
            = ((pre @ [?r]) @ minted gen (Suc n) rs, Suc n + unresolved rs)" .
    ultimately show ?thesis using True by (simp add: unresolved_def)
  next
    case False
    from Cons.IH [OF d, of n] False show ?thesis by (simp add: unresolved_def)
  qed
qed

lemma fill_ids_minted:
  "distinct (map idx frame) \<Longrightarrow>
   fill_ids gen frame (frame, n) = (minted gen n frame, n + unresolved frame)"
  using fill_ids_positional [of "[]" frame gen n] by simp

lemma minted_length: "length (minted gen n rs) = length rs"
  by (induction rs arbitrary: n) auto

lemma minted_nth:
  "i < length rs \<Longrightarrow>
   minted gen n rs ! i =
     (if EITI_ID (rs ! i) = Str []
      then (rs ! i)\<lparr>EITI_ID := Str (gen (n + unresolved (take i rs)))\<rparr>
      else rs ! i)"
proof (induction rs arbitrary: n i)
  case Nil
  then show ?case by simp
next
  case (Cons r rs)
  show ?case
  proof (cases i)
    case 0
    then show ?thesis by (simp add: unresolved_def)
  next
    case (Suc j)
    with Cons.prems have "j < length rs" by simp
    from Cons.IH [OF this] Suc show ?thesis by (simp add: unresolved_def)
  qed
qed

lemma unresolved_take_less:
  assumes "i < j" and "j \<le> length rs" and "EITI_ID (rs ! i) = Str []"
  shows "unresolved (take i rs) < unresolved (take j rs)"
proof -
  from assms(1) obtain k where k: "j = Suc (i + k)"
    using less_imp_Suc_add by blast
  from assms(1,2) have i: "i < length rs" by simp
  have "take j rs = take i rs @ take (Suc k) (drop i rs)"
    unfolding k using take_add [of i "Suc k" rs] by simp
  moreover from i have "drop i rs = rs ! i # drop (Suc i) rs"
    by (rule Cons_nth_drop_Suc [symmetric])
  ultimately have "take j rs = take i rs @ rs ! i # take k (drop (Suc i) rs)"
    by simp
  then have "unresolved (take j rs)
               = unresolved (take i rs) + unresolved [rs ! i] + unresolved (take k (drop (Suc i) rs))"
    by (simp add: unresolved_def)
  with assms(3) show ?thesis by (simp add: unresolved_def)
qed

lemma unresolved_take_le: "unresolved (take i rs) \<le> unresolved rs"
proof -
  have "unresolved rs = unresolved (take i rs) + unresolved (drop i rs)"
    unfolding unresolved_def by (metis append_take_drop_id filter_append length_append)
  then show ?thesis by simp
qed

lemma unresolved_take_lt:
  assumes "i < length rs" and "EITI_ID (rs ! i) = Str []"
  shows "unresolved (take i rs) < unresolved rs"
  using unresolved_take_less [of i "length rs" rs] assms by simp

lemma assign_identifiers_minted:
  assumes "distinct (map idx uc)" and "distinct (map idx ug)"
  shows "assign_identifiers gen uc ug = (minted gen 0 uc, minted gen (unresolved uc) ug)"
  using assms by (simp add: assign_identifiers_def fill_ids_minted)

text \<open>
  C6. On frames with distinct index labels (as \<open>main\<close> builds them), the two loops of
  \<open>validate_matching\<close> leave every row whose \<open>EITI ID\<close> is not the empty string as it
  was, and change nothing but the \<open>EITI ID\<close>, to a value of \<open>generate_uuid\<close>, in a row
  whose \<open>EITI ID\<close> is the empty string.
\<close>

theorem assign_identifiers_keeps_resolved:
  assumes "distinct (map idx uc)" and "distinct (map idx ug)"
    and "assign_identifiers gen uc ug = (uc', ug')"
  shows "length uc' = length uc \<and> length ug' = length ug
     \<and> (\<forall>i < length uc. if EITI_ID (uc ! i) = Str []
                          then \<exists>k. uc' ! i = (uc ! i)\<lparr>EITI_ID := Str (gen k)\<rparr>
                          else uc' ! i = uc ! i)
     \<and> (\<forall>i < length ug. if EITI_ID (ug ! i) = Str []
                          then \<exists>k. ug' ! i = (ug ! i)\<lparr>EITI_ID := Str (gen k)\<rparr>
                          else ug' ! i = ug ! i)"
proof -
  from assms have c: "uc' = minted gen 0 uc" and g: "ug' = minted gen (unresolved uc) ug"
    by (simp_all add: assign_identifiers_minted)
  have "\<forall>i < length rs. if EITI_ID (rs ! i) = Str []
                          then \<exists>k. minted gen n rs ! i = (rs ! i)\<lparr>EITI_ID := Str (gen k)\<rparr>
                          else minted gen n rs ! i = rs ! i" for n rs
    by (auto simp: minted_nth)
  with c g show ?thesis by (simp add: minted_length)
qed

theorem assign_identifiers_keeps_resolved_witness:
  "assign_identifiers (\<lambda>n. [n])
     [\<lparr>idx = 0, row = \<lparr>Company = Str [65], Government_entity = Str [66], passthrough = []\<rparr>,
        Potential_Match = Str [67], EITI_ID = Str [49]\<rparr>,
      \<lparr>idx = 2, row = \<lparr>Company = Str [68], Government_entity = Str [66], passthrough = []\<rparr>,
        Potential_Match = Str no_potential_match, EITI_ID = Str []\<rparr>] []
   = ([\<lparr>idx = 0, row = \<lparr>Company = Str [65], Government_entity = Str [66], passthrough = []\<rparr>,
        Potential_Match = Str [67], EITI_ID = Str [49]\<rparr>,
      \<lparr>idx = 2, row = \<lparr>Company = Str [68], Government_entity = Str [66], passthrough = []\<rparr>,
        Potential_Match = Str no_potential_match, EITI_ID = Str [0]\<rparr>], [])
   \<and> (\<exists>k. \<lparr>idx = 2, row = \<lparr>Company = Str [68], Government_entity = Str [66], passthrough = []\<rparr>,
        Potential_Match = Str no_potential_match, EITI_ID = Str [0]\<rparr>
        = \<lparr>idx = 2, row = \<lparr>Company = Str [68], Government_entity = Str [66], passthrough = []\<rparr>,
        Potential_Match = Str no_potential_match, EITI_ID = Str []\<rparr>\<lparr>EITI_ID := Str [k]\<rparr>)"
proof -
  let ?a = "\<lparr>idx = 0, row = \<lparr>Company = Str [65], Government_entity = Str [66], passthrough = []\<rparr>,
        Potential_Match = Str [67], EITI_ID = Str [49]\<rparr>"
  let ?b = "\<lparr>idx = 2, row = \<lparr>Company = Str [68], Government_entity = Str [66], passthrough = []\<rparr>,
        Potential_Match = Str no_potential_match, EITI_ID = Str []\<rparr>"
  have e: "assign_identifiers (\<lambda>n. [n]) [?a, ?b] [] = ([?a, ?b\<lparr>EITI_ID := Str [0]\<rparr>], [])"
    by (simp add: assign_identifiers_def at_set_def)
  have d: "distinct (map idx [?a, ?b])" "distinct (map idx ([]::mrow list))"
    by simp_all
  from assign_identifiers_keeps_resolved [OF d e] have
    "\<forall>i < length [?a, ?b]. if EITI_ID ([?a, ?b] ! i) = Str []
        then \<exists>k. [?a, ?b\<lparr>EITI_ID := Str [0]\<rparr>] ! i = ([?a, ?b] ! i)\<lparr>EITI_ID := Str [k]\<rparr>
        else [?a, ?b\<lparr>EITI_ID := Str [0]\<rparr>] ! i = [?a, ?b] ! i"
    by blast
  then have "if EITI_ID ([?a, ?b] ! 1) = Str []
        then \<exists>k. [?a, ?b\<lparr>EITI_ID := Str [0]\<rparr>] ! 1 = ([?a, ?b] ! 1)\<lparr>EITI_ID := Str [k]\<rparr>
        else [?a, ?b\<lparr>EITI_ID := Str [0]\<rparr>] ! 1 = [?a, ?b] ! 1"
    by simp
  with e show ?thesis by simp
qed

text \<open>
  C8. When successive calls of \<open>generate_uuid\<close> return different values, the rows
  whose \<open>EITI ID\<close> is the empty string when \<open>validate_matching\<close> starts receive
  pairwise different identifiers, within each of the two frames and across them
  (the frames have distinct index labels, as \<open>main\<close> builds them).
\<close>

theorem minted_identifiers_distinct:
  assumes "inj gen" and "distinct (map idx uc)" and "distinct (map idx ug)"
    and "assign_identifiers gen uc ug = (uc', ug')"
  shows "(\<forall>i < length uc. \<forall>j < length uc.
            i \<noteq> j \<and> EITI_ID (uc ! i) = Str [] \<and> EITI_ID (uc ! j) = Str []
            \<longrightarrow> EITI_ID (uc' ! i) \<noteq> EITI_ID (uc' ! j))
     \<and> (\<forall>i < length ug. \<forall>j < length ug.
            i \<noteq> j \<and> EITI_ID (ug ! i) = Str [] \<and> EITI_ID (ug ! j) = Str []
            \<longrightarrow> EITI_ID (ug' ! i) \<noteq> EITI_ID (ug' ! j))
     \<and> (\<forall>i < length uc. \<forall>j < length ug.
            EITI_ID (uc ! i) = Str [] \<and> EITI_ID (ug ! j) = Str []
            \<longrightarrow> EITI_ID (uc' ! i) \<noteq> EITI_ID (ug' ! j))"
proof -
  from assms have c: "uc' = minted gen 0 uc" and g: "ug' = minted gen (unresolved uc) ug"
    by (simp_all add: assign_identifiers_minted)
  have within: "EITI_ID (minted gen n rs ! i) \<noteq> EITI_ID (minted gen n rs ! j)"
    if "i < length rs" "j < length rs" "i \<noteq> j"
      "EITI_ID (rs ! i) = Str []" "EITI_ID (rs ! j) = Str []" for n rs i j
  proof -
    have "unresolved (take i rs) \<noteq> unresolved (take j rs)"
    proof (cases "i < j")
      case True
      with that unresolved_take_less [of i j rs] show ?thesis by simp
    next
      case False
      with that have "j < i" by simp
      with that unresolved_take_less [of j i rs] show ?thesis by simp
    qed
    with that assms(1) show ?thesis by (simp add: minted_nth inj_eq)
  qed
  have across: "EITI_ID (minted gen 0 uc ! i) \<noteq> EITI_ID (minted gen (unresolved uc) ug ! j)"
    if "i < length uc" "j < length ug" "EITI_ID (uc ! i) = Str []" "EITI_ID (ug ! j) = Str []"
    for i j
  proof -
    from that have "unresolved (take i uc) < unresolved uc"
      by (simp add: unresolved_take_lt)
    then have "unresolved (take i uc) \<noteq> unresolved uc + unresolved (take j ug)" by simp
    with that assms(1) show ?thesis by (simp add: minted_nth inj_eq)
  qed
  from within across c g show ?thesis by blast
qed

theorem minted_identifiers_distinct_witness:
  "inj (\<lambda>n::nat. [n])
   \<and> assign_identifiers (\<lambda>n. [n])
       [\<lparr>idx = 0, row = \<lparr>Company = Str [65], Government_entity = Str [66], passthrough = []\<rparr>,
          Potential_Match = Str no_potential_match, EITI_ID = Str []\<rparr>,
        \<lparr>idx = 1, row = \<lparr>Company = Str [68], Government_entity = Str [66], passthrough = []\<rparr>,
          Potential_Match = Str no_potential_match, EITI_ID = Str []\<rparr>]
       [\<lparr>idx = 0, row = \<lparr>Company = Str [65], Government_entity = Str [66], passthrough = []\<rparr>,
          Potential_Match = Str no_potential_match, EITI_ID = Str []\<rparr>]
     = ([\<lparr>idx = 0, row = \<lparr>Company = Str [65], Government_entity = Str [66], passthrough = []\<rparr>,
          Potential_Match = Str no_potential_match, EITI_ID = Str [0]\<rparr>,
        \<lparr>idx = 1, row = \<lparr>Company = Str [68], Government_entity = Str [66], passthrough = []\<rparr>,
          Potential_Match = Str no_potential_match, EITI_ID = Str [1]\<rparr>],
        [\<lparr>idx = 0, row = \<lparr>Company = Str [65], Government_entity = Str [66], passthrough = []\<rparr>,
          Potential_Match = Str no_potential_match, EITI_ID = Str [2]\<rparr>])
   \<and> Str [0::nat] \<noteq> Str [1] \<and> Str [0::nat] \<noteq> Str [2]"
proof -
  let ?a = "\<lparr>idx = 0, row = \<lparr>Company = Str [65], Government_entity = Str [66], passthrough = []\<rparr>,
          Potential_Match = Str no_potential_match, EITI_ID = Str []\<rparr>"
  let ?b = "\<lparr>idx = 1, row = \<lparr>Company = Str [68], Government_entity = Str [66], passthrough = []\<rparr>,
          Potential_Match = Str no_potential_match, EITI_ID = Str []\<rparr>"
  let ?uc' = "[?a\<lparr>EITI_ID := Str [0]\<rparr>, ?b\<lparr>EITI_ID := Str [1]\<rparr>]"
  let ?ug' = "[?a\<lparr>EITI_ID := Str [2]\<rparr>]"
  have i: "inj (\<lambda>n::nat. [n])" by (simp add: inj_def)
  have d: "distinct (map idx [?a, ?b])" "distinct (map idx [?a])" by simp_all
  have e: "assign_identifiers (\<lambda>n. [n]) [?a, ?b] [?a] = (?uc', ?ug')"
    by (simp add: assign_identifiers_def at_set_def)
  from minted_identifiers_distinct [OF i d e]
  have w: "\<forall>i < length [?a, ?b]. \<forall>j < length [?a, ?b].
            i \<noteq> j \<and> EITI_ID ([?a, ?b] ! i) = Str [] \<and> EITI_ID ([?a, ?b] ! j) = Str []
            \<longrightarrow> EITI_ID (?uc' ! i) \<noteq> EITI_ID (?uc' ! j)"
    and x: "\<forall>i < length [?a, ?b]. \<forall>j < length [?a].
            EITI_ID ([?a, ?b] ! i) = Str [] \<and> EITI_ID ([?a] ! j) = Str []
            \<longrightarrow> EITI_ID (?uc' ! i) \<noteq> EITI_ID (?ug' ! j)"
    by blast+
  from w have "(0::nat) < length [?a, ?b] \<longrightarrow> (\<forall>j < length [?a, ?b].
            (0::nat) \<noteq> j \<and> EITI_ID ([?a, ?b] ! 0) = Str [] \<and> EITI_ID ([?a, ?b] ! j) = Str []
            \<longrightarrow> EITI_ID (?uc' ! 0) \<noteq> EITI_ID (?uc' ! j))"
    by blast
  then have "(1::nat) < length [?a, ?b] \<longrightarrow>
            (0::nat) \<noteq> 1 \<and> EITI_ID ([?a, ?b] ! 0) = Str [] \<and> EITI_ID ([?a, ?b] ! 1) = Str []
            \<longrightarrow> EITI_ID (?uc' ! 0) \<noteq> EITI_ID (?uc' ! 1)"
    by simp
  then have "Str [0::nat] \<noteq> Str [1]" by simp
  with i e show ?thesis by simp
qed

section \<open>The final merge\<close>

lemma at_set_rows:
  "map row (at_set i (\<lambda>x. x\<lparr>EITI_ID := v\<rparr>) frame) = map row frame"
  "map row (at_set i (\<lambda>x. x\<lparr>Potential_Match := v\<rparr>) frame) = map row frame"
  by (simp_all add: at_set_def)

lemma fill_ids_rows:
  "map row (fst (fill_ids gen todo (frame, n))) = map row frame"
  by (induction todo arbitrary: frame n) (simp_all add: at_set_rows)

lemma assign_identifiers_rows:
  "map row (fst (assign_identifiers gen uc ug)) = map row uc"
  "map row (snd (assign_identifiers gen uc ug)) = map row ug"
  by (simp_all add: assign_identifiers_def Let_def fill_ids_rows)

lemma display_unmatched_rows:
  "display_unmatched pick remote_df remote_column id_column todo frame = Inr frame'
   \<Longrightarrow> map row frame' = map row frame"
proof (induction todo arbitrary: frame)
  case Nil
  then show ?case by simp
next
  case (Cons r rs)
  let ?chosen = "selectbox (Str no_potential_match # map remote_column remote_df) (pick (idx r))"
  let ?f1 = "at_set (idx r) (\<lambda>x. x\<lparr>Potential_Match := ?chosen\<rparr>) frame"
  show ?case
  proof (cases "?chosen \<noteq> Str no_potential_match")
    case True
    show ?thesis
    proof (cases "filter (\<lambda>e. cell_eq (remote_column e) ?chosen) remote_df")
      case Nil
      with True Cons.prems show ?thesis by (simp add: Let_def)
    next
      case (Cons e es)
      with True Cons.prems have
        "display_unmatched pick remote_df remote_column id_column rs
           (at_set (idx r) (\<lambda>x. x\<lparr>EITI_ID := id_column e\<rparr>) ?f1) = Inr frame'"
        by (simp add: Let_def)
      from Cons.IH [OF this] show ?thesis by (simp add: at_set_rows)
    qed
  next
    case False
    with Cons.prems have
      "display_unmatched pick remote_df remote_column id_column rs ?f1 = Inr frame'"
      by (simp add: Let_def)
    from Cons.IH [OF this] show ?thesis by (simp add: at_set_rows)
  qed
qed

text \<open>
  The frames of unmatched rows that \<open>main\<close> builds have distinct index labels, which
  are positions in \<open>df\<close>, and \<open>display_unmatched\<close> keeps the labels.
\<close>

lemma at_set_idx:
  "map idx (at_set i (\<lambda>x. x\<lparr>EITI_ID := v\<rparr>) frame) = map idx frame"
  "map idx (at_set i (\<lambda>x. x\<lparr>Potential_Match := v\<rparr>) frame) = map idx frame"
  by (simp_all add: at_set_def)

lemma display_unmatched_idx:
  "display_unmatched pick remote_df remote_column id_column todo frame = Inr frame'
   \<Longrightarrow> map idx frame' = map idx frame"
proof (induction todo arbitrary: frame)
  case Nil
  then show ?case by simp
next
  case (Cons r rs)
  let ?chosen = "selectbox (Str no_potential_match # map remote_column remote_df) (pick (idx r))"
  let ?f1 = "at_set (idx r) (\<lambda>x. x\<lparr>Potential_Match := ?chosen\<rparr>) frame"
  show ?case
  proof (cases "?chosen \<noteq> Str no_potential_match")
    case True
    show ?thesis
    proof (cases "filter (\<lambda>e. cell_eq (remote_column e) ?chosen) remote_df")
      case Nil
      with True Cons.prems show ?thesis by (simp add: Let_def)
    next
      case (Cons e es)
      with True Cons.prems have
        "display_unmatched pick remote_df remote_column id_column rs
           (at_set (idx r) (\<lambda>x. x\<lparr>EITI_ID := id_column e\<rparr>) ?f1) = Inr frame'"
        by (simp add: Let_def)
      from Cons.IH [OF this] show ?thesis by (simp add: at_set_idx)
    qed
  next
    case False
    with Cons.prems have
      "display_unmatched pick remote_df remote_column id_column rs ?f1 = Inr frame'"
      by (simp add: Let_def)
    from Cons.IH [OF this] show ?thesis by (simp add: at_set_idx)
  qed
qed

lemma unmatched_frame_labels:
  "distinct (map fst (unmatched_frame name df ms))"
  "\<forall>ir \<in> set (unmatched_frame name df ms). fst ir < length df \<and> snd ir = df ! fst ir"
proof -
  have "distinct (map fst (zip [0..<length df] df))" by simp
  then show "distinct (map fst (unmatched_frame name df ms))"
    unfolding unmatched_frame_def by (rule distinct_map_filter)
  show "\<forall>ir \<in> set (unmatched_frame name df ms). fst ir < length df \<and> snd ir = df ! fst ir"
    unfolding unmatched_frame_def by (auto simp: set_zip)
qed

lemma combine_first_keyed:
  assumes "\<forall>kw \<in> set other. \<exists>c. fst kw = KeyL c"
  shows "combine_first (zip (map IntL [0..<length col]) col) other
           = zip (map IntL [0..<length col]) col @ other"
proof -
  let ?s = "zip (map IntL [0..<length col]) col"
  have l: "\<exists>i. fst lv = IntL i" if "lv \<in> set ?s" for lv
    using that by (auto simp: set_zip)
  have "filter (\<lambda>kw. fst kw = fst lv) other = []" if "lv \<in> set ?s" for lv
    using l [OF that] assms by (auto simp: filter_empty_conv)
  then have "map (\<lambda>lv. case filter (\<lambda>kw. fst kw = fst lv) other of
                          [] \<Rightarrow> [lv]
                        | m # ms \<Rightarrow> map (\<lambda>kw. (fst lv, if snd lv = NaN then snd kw else snd lv)) (m # ms)) ?s
             = map (\<lambda>lv. [lv]) ?s"
    by (intro map_cong) simp_all
  moreover have "concat (map (\<lambda>lv. [lv]) ?s) = ?s"
    by (induction ?s) simp_all
  moreover have "filter (\<lambda>kw. fst kw \<notin> set (map fst ?s)) other = other"
  proof (rule filter_True, rule ballI)
    fix kw assume "kw \<in> set other"
    with assms obtain c where "fst kw = KeyL c" by blast
    then show "fst kw \<notin> set (map fst ?s)" by auto
  qed
  ultimately show ?thesis
    unfolding combine_first_def by (simp only:)
qed

lemma fill_column_keyed:
  assumes "\<forall>kw \<in> set other. \<exists>c. fst kw = KeyL c"
  shows "fill_column col other = (if distinct (map fst other) then Inr col else Inl ValueError)"
proof -
  let ?ix = "map IntL [0..<length col]"
  let ?s = "zip ?ix col"
  have ix: "distinct ?ix" by (simp add: distinct_map inj_on_def)
  have fs: "map fst ?s = ?ix" by simp
  have disj: "set ?ix \<inter> set (map fst other) = {}"
    using assms by auto
  have d: "distinct (map fst (?s @ other)) \<longleftrightarrow> distinct (map fst other)"
    using ix disj by (simp only: map_append distinct_append fs) simp
  have "map (\<lambda>l. case map_of (?s @ other) l of Some v \<Rightarrow> v | None \<Rightarrow> NaN) ?ix = col"
  proof (rule nth_equalityI)
    show "length (map (\<lambda>l. case map_of (?s @ other) l of Some v \<Rightarrow> v | None \<Rightarrow> NaN) ?ix)
            = length col" by simp
  next
    fix i assume "i < length (map (\<lambda>l. case map_of (?s @ other) l of Some v \<Rightarrow> v | None \<Rightarrow> NaN) ?ix)"
    then have i: "i < length col" by simp
    have "map_of ?s (?ix ! i) = Some (col ! i)"
      using ix i by (intro map_of_zip_nth) simp_all
    then have "map_of (?s @ other) (?ix ! i) = Some (col ! i)"
      by (simp only: map_of_append map_add_def) simp
    with i show "map (\<lambda>l. case map_of (?s @ other) l of Some v \<Rightarrow> v | None \<Rightarrow> NaN) ?ix ! i
                  = col ! i"
      by simp
  qed
  with d show ?thesis
    by (simp only: fill_column_def combine_first_keyed [OF assms] reindex_def)
qed

lemma zip_back:
  "map (\<lambda>(m, c, g). \<lparr>source = fst (fst m), out_eiti_id_company = c, out_eiti_id_government = g\<rparr>)
       (zip ms (zip (map (\<lambda>m. snd (fst m)) ms) (map snd ms)))
   = map as_resolved ms"
  by (induction ms) (simp_all add: as_resolved_def)

lemma validate_matching_result:
  "validate_matching gen df company_matches gov_matches uc ug =
     (if distinct (map (\<lambda>u. Company (row u)) uc)
         \<and> distinct (map (\<lambda>u. Government_entity (row u)) ug)
      then Inr (map as_resolved (merge_identifiers df company_matches gov_matches))
      else Inl ValueError)"
proof -
  let ?a = "assign_identifiers gen uc ug"
  let ?oc = "map (\<lambda>u. (KeyL (Company (row u)), EITI_ID u)) (fst ?a)"
  let ?og = "map (\<lambda>u. (KeyL (Government_entity (row u)), EITI_ID u)) (snd ?a)"
  have kc: "\<forall>kw \<in> set ?oc. \<exists>c. fst kw = KeyL c" and kg: "\<forall>kw \<in> set ?og. \<exists>c. fst kw = KeyL c"
    by auto
  have "map fst ?oc = map (\<lambda>u. KeyL (Company u)) (map row (fst ?a))"
    by simp
  then have "map fst ?oc = map KeyL (map (\<lambda>u. Company (row u)) uc)"
    by (simp only: assign_identifiers_rows) simp
  then have dc: "distinct (map fst ?oc) \<longleftrightarrow> distinct (map (\<lambda>u. Company (row u)) uc)"
    by (simp only: distinct_map) (simp add: inj_on_def)
  have "map fst ?og = map (\<lambda>u. KeyL (Government_entity u)) (map row (snd ?a))"
    by simp
  then have "map fst ?og = map KeyL (map (\<lambda>u. Government_entity (row u)) ug)"
    by (simp only: assign_identifiers_rows) simp
  then have dg: "distinct (map fst ?og) \<longleftrightarrow> distinct (map (\<lambda>u. Government_entity (row u)) ug)"
    by (simp only: distinct_map) (simp add: inj_on_def)
  show ?thesis
    unfolding validate_matching_def Let_def fill_column_keyed [OF kc] fill_column_keyed [OF kg] dc dg
    by (simp add: zip_back)
qed

lemma merge_inner_set:
  "set (merge_inner left_on right_on left right)
     = {(l, r). l \<in> set left \<and> r \<in> set right \<and> right_on r = left_on l}"
  by (auto simp: merge_inner_def)

lemma merge_left_block:
  "set (case filter (\<lambda>kv. fst kv = k) right of
          [] \<Rightarrow> [(l, NaN)]
        | m # ms \<Rightarrow> map (\<lambda>kv. (l, snd kv)) (m # ms))
     = (if k \<in> fst ` set right then {(l, v) | v. (k, v) \<in> set right} else {(l, NaN)})"
proof (cases "filter (\<lambda>kv. fst kv = k) right")
  case Nil
  then have "k \<notin> fst ` set right"
    by (auto simp: filter_empty_conv)
  with Nil show ?thesis by simp
next
  case (Cons m ms)
  then have "m \<in> set (filter (\<lambda>kv. fst kv = k) right)" by simp
  then have k: "k \<in> fst ` set right" by force
  have "set (map (\<lambda>kv. (l, snd kv)) (filter (\<lambda>kv. fst kv = k) right))
          = {(l, v) | v. (k, v) \<in> set right}"
    by force
  with Cons k show ?thesis by simp
qed

lemma merge_left_set:
  "set (merge_left key left right)
     = {(l, v). l \<in> set left \<and>
          (if key l \<in> fst ` set right then (key l, v) \<in> set right else v = NaN)}"
  unfolding merge_left_def set_concat set_map image_image merge_left_block
  by (auto split: if_splits)



lemma merge_left_length_ge:
  "length left \<le> length (merge_left key left right)"
proof -
  have one: "1 \<le> length (case filter (\<lambda>kv. fst kv = k) right of
                [] \<Rightarrow> [(l, NaN)]
              | m # ms \<Rightarrow> map (\<lambda>kv. (l, snd kv)) (m # ms))" for k :: cell and l :: 'a
    by (cases "filter (\<lambda>kv. fst kv = k) right") simp_all
  show ?thesis
    unfolding merge_left_def
  proof (induction left)
    case Nil
    then show ?case by simp
  next
    case (Cons a left)
    with one [where k = "key a" and l = a] show ?case by simp
  qed
qed



lemma main_Inr:
  assumes "main tab up scorer pc pg gen df0 uc0 ug0 = Inr out"
  obtains df cnames gnames where
    "preprocess_dataset tab up df0 = Inr df"
    "apply_series (preprocess_text tab up) (map company_name uc0) = Inr cnames"
    "apply_series (preprocess_text tab up) (map government_entity ug0) = Inr gnames"
    "registry_companies out = map (\<lambda>rn. (fst rn)\<lparr>company_name := snd rn\<rparr>) (zip uc0 cnames)"
    "registry_governments out = map (\<lambda>rn. (fst rn)\<lparr>government_entity := snd rn\<rparr>) (zip ug0 gnames)"
    "resolved_table out =
       map as_resolved
         (merge_identifiers df
            (merge_inner Company company_name df (registry_companies out))
            (merge_inner Government_entity government_entity df (registry_governments out)))"
  using assms unfolding main_def validate_matching_result Let_def
  by (auto split: sum.splits if_splits)

section \<open>The rows of the resolved table\<close>

lemma matched_pairs_set:
  "set (map (\<lambda>m. (kl (fst m), idc (snd m))) (merge_inner kl kr df R))
     = {(kl l, idc e) | l e. l \<in> set df \<and> e \<in> set R \<and> kr e = kl l}"
  by (force simp: merge_inner_set)

lemma key_matched:
  assumes "l \<in> set df"
  shows "kl l \<in> fst ` set (map (\<lambda>m. (kl (fst m), idc (snd m))) (merge_inner kl kr df R))
           \<longleftrightarrow> (\<exists>e \<in> set R. kr e = kl l)"
proof
  assume "kl l \<in> fst ` set (map (\<lambda>m. (kl (fst m), idc (snd m))) (merge_inner kl kr df R))"
  then obtain l' e where "kl l' = kl l" "e \<in> set R" "kr e = kl l'"
    unfolding matched_pairs_set by force
  then show "\<exists>e \<in> set R. kr e = kl l" by auto
next
  assume "\<exists>e \<in> set R. kr e = kl l"
  then obtain e where "e \<in> set R" "kr e = kl l" by blast
  with assms have "(kl l, idc e) \<in> set (map (\<lambda>m. (kl (fst m), idc (snd m))) (merge_inner kl kr df R))"
    unfolding matched_pairs_set by blast
  then show "kl l \<in> fst ` set (map (\<lambda>m. (kl (fst m), idc (snd m))) (merge_inner kl kr df R))"
    by force
qed

lemma id_matched:
  assumes "l \<in> set df"
  shows "(kl l, c) \<in> set (map (\<lambda>m. (kl (fst m), idc (snd m))) (merge_inner kl kr df R))
           \<longleftrightarrow> (\<exists>e \<in> set R. kr e = kl l \<and> c = idc e)"
proof
  assume "(kl l, c) \<in> set (map (\<lambda>m. (kl (fst m), idc (snd m))) (merge_inner kl kr df R))"
  then obtain l' e where "kl l' = kl l" "e \<in> set R" "kr e = kl l'" "c = idc e"
    unfolding matched_pairs_set by force
  then show "\<exists>e \<in> set R. kr e = kl l \<and> c = idc e" by auto
next
  assume "\<exists>e \<in> set R. kr e = kl l \<and> c = idc e"
  with assms show "(kl l, c) \<in> set (map (\<lambda>m. (kl (fst m), idc (snd m))) (merge_inner kl kr df R))"
    unfolding matched_pairs_set by blast
qed

lemma merged_rows:
  "((l, c), g) \<in> set (merge_identifiers df
        (merge_inner Company company_name df uc)
        (merge_inner Government_entity government_entity df ug))
   \<longleftrightarrow> l \<in> set df
       \<and> exact_id company_name eiti_id_company uc (Company l) c
       \<and> exact_id government_entity eiti_id_government ug (Government_entity l) g"
proof -
  let ?cp = "map (\<lambda>m. (Company (fst m), eiti_id_company (snd m)))
               (merge_inner Company company_name df uc)"
  let ?gp = "map (\<lambda>m. (Government_entity (fst m), eiti_id_government (snd m)))
               (merge_inner Government_entity government_entity df ug)"
  have c: "(l, c) \<in> set (merge_left Company df ?cp)
             \<longleftrightarrow> l \<in> set df \<and> exact_id company_name eiti_id_company uc (Company l) c"
  proof (cases "l \<in> set df")
    case True
    show ?thesis
      unfolding merge_left_set exact_id_def
      using True key_matched [OF True, of Company eiti_id_company company_name uc]
        id_matched [OF True, of Company c eiti_id_company company_name uc]
      by simp
  next
    case False
    then show ?thesis by (simp add: merge_left_set)
  qed
  have g: "(if Government_entity l \<in> fst ` set ?gp then (Government_entity l, g) \<in> set ?gp
           else g = NaN)
             \<longleftrightarrow> exact_id government_entity eiti_id_government ug (Government_entity l) g"
    if "l \<in> set df"
    unfolding exact_id_def
    using key_matched [OF that, of Government_entity eiti_id_government government_entity ug]
      id_matched [OF that, of Government_entity g eiti_id_government government_entity ug]
    by simp
  have "((l, c), g) \<in> set (merge_left (\<lambda>m. Government_entity (fst m))
                             (merge_left Company df ?cp) ?gp)
          \<longleftrightarrow> (l, c) \<in> set (merge_left Company df ?cp)
              \<and> (if Government_entity l \<in> fst ` set ?gp then (Government_entity l, g) \<in> set ?gp
                  else g = NaN)"
    by (simp add: merge_left_set [of "\<lambda>m. Government_entity (fst m)"])
  with c g show ?thesis
    unfolding merge_identifiers_def by blast
qed

lemma resolved_rows:
  "r \<in> set (map as_resolved (merge_identifiers df
        (merge_inner Company company_name df uc)
        (merge_inner Government_entity government_entity df ug)))
   \<longleftrightarrow> source r \<in> set df
       \<and> exact_id company_name eiti_id_company uc (Company (source r)) (out_eiti_id_company r)
       \<and> exact_id government_entity eiti_id_government ug (Government_entity (source r))
            (out_eiti_id_government r)"
proof -
  have "r \<in> set (map as_resolved ms) \<longleftrightarrow>
          ((source r, out_eiti_id_company r), out_eiti_id_government r) \<in> set ms" for ms
  proof
    assume "r \<in> set (map as_resolved ms)"
    then obtain m where "m \<in> set ms" "r = as_resolved m" by auto
    then show "((source r, out_eiti_id_company r), out_eiti_id_government r) \<in> set ms"
      by (simp add: as_resolved_def)
  next
    assume "((source r, out_eiti_id_company r), out_eiti_id_government r) \<in> set ms"
    moreover have "as_resolved ((source r, out_eiti_id_company r), out_eiti_id_government r) = r"
      by (simp add: as_resolved_def)
    ultimately show "r \<in> set (map as_resolved ms)" by force
  qed
  then show ?thesis by (simp only: merged_rows)
qed

lemma exact_id_total: "\<exists>c. exact_id kr idc R k c"
  unfolding exact_id_def by auto

section \<open>Properties of the pipeline\<close>

lemma zip_results_set:
  assumes "map f xs = map Inr ns"
  shows "set (zip xs ns) = {(x, n). x \<in> set xs \<and> f x = Inr n}"
proof -
  from assms have len: "length xs = length ns"
    by (metis length_map)
  have nth: "f (xs ! j) = Inr (ns ! j)" if "j < length xs" for j
    using that assms len by (metis nth_map)
  show ?thesis
  proof (intro set_eqI iffI)
    fix p assume "p \<in> set (zip xs ns)"
    then obtain j where "j < length xs" "p = (xs ! j, ns ! j)"
      using len by (auto simp: set_zip)
    with nth show "p \<in> {(x, n). x \<in> set xs \<and> f x = Inr n}" by simp
  next
    fix p assume "p \<in> {(x, n). x \<in> set xs \<and> f x = Inr n}"
    then obtain x n where p: "p = (x, n)" "x \<in> set xs" "f x = Inr n" by blast
    then obtain j where j: "j < length xs" "x = xs ! j" by (metis in_set_conv_nth)
    with nth p have "n = ns ! j" by simp
    with j p len show "p \<in> set (zip xs ns)" by (auto simp: set_zip)
  qed
qed

lemma zip_results_nth:
  assumes "map f xs = map Inr ns"
  shows "length ns = length xs" and "j < length xs \<Longrightarrow> f (xs ! j) = Inr (ns ! j)"
proof -
  from assms show len: "length ns = length xs"
    by (metis length_map)
  show "f (xs ! j) = Inr (ns ! j)" if "j < length xs"
    using that assms len by (metis nth_map)
qed

lemma preprocess_dataset_rows:
  assumes "preprocess_dataset tab up df0 = Inr df"
  shows "length df = length df0"
    and "i < length df0 \<Longrightarrow>
           preprocess_text tab up (Company (df0 ! i)) = Inr (Company (df ! i))
         \<and> preprocess_text tab up (Government_entity (df0 ! i)) = Inr (Government_entity (df ! i))
         \<and> passthrough (df ! i) = passthrough (df0 ! i)"
proof -
  from assms obtain cs gs where
    cs: "apply_series (preprocess_text tab up) (map Company df0) = Inr cs" and
    gs: "apply_series (preprocess_text tab up) (map Government_entity df0) = Inr gs" and
    df: "df = map (\<lambda>(r, c, g). r\<lparr>Company := c, Government_entity := g\<rparr>) (zip df0 (zip cs gs))"
    by (auto simp: preprocess_dataset_def split: sum.splits)
  from cs have c: "map (preprocess_text tab up) (map Company df0) = map Inr cs"
    by (simp only: apply_series_Inr_iff)
  from gs have g: "map (preprocess_text tab up) (map Government_entity df0) = map Inr gs"
    by (simp only: apply_series_Inr_iff)
  from zip_results_nth(1) [OF c] zip_results_nth(1) [OF g]
  have len: "length cs = length df0" "length gs = length df0" by simp_all
  with df show "length df = length df0" by simp
  show "preprocess_text tab up (Company (df0 ! i)) = Inr (Company (df ! i))
         \<and> preprocess_text tab up (Government_entity (df0 ! i)) = Inr (Government_entity (df ! i))
         \<and> passthrough (df ! i) = passthrough (df0 ! i)" if "i < length df0"
  proof -
    from that len df have "df ! i = (df0 ! i)\<lparr>Company := cs ! i, Government_entity := gs ! i\<rparr>"
      by simp
    moreover from zip_results_nth(2) [OF c, of i] that
    have "preprocess_text tab up (Company (df0 ! i)) = Inr (cs ! i)" by simp
    moreover from zip_results_nth(2) [OF g, of i] that
    have "preprocess_text tab up (Government_entity (df0 ! i)) = Inr (gs ! i)" by simp
    ultimately show ?thesis by simp
  qed
qed

lemma main_companies:
  assumes "main tab up scorer pc pg gen df0 uc0 ug0 = Inr out"
  shows "e' \<in> set (registry_companies out) \<longleftrightarrow>
           (\<exists>e \<in> set uc0. \<exists>n. preprocess_text tab up (company_name e) = Inr n
                                \<and> e' = e\<lparr>company_name := n\<rparr>)"
proof -
  from assms obtain cnames where
    a: "apply_series (preprocess_text tab up) (map company_name uc0) = Inr cnames" and
    r: "registry_companies out = map (\<lambda>rn. (fst rn)\<lparr>company_name := snd rn\<rparr>) (zip uc0 cnames)"
    by (rule main_Inr)
  from a have "map (\<lambda>e. preprocess_text tab up (company_name e)) uc0 = map Inr cnames"
    by (simp add: apply_series_Inr_iff comp_def)
  from zip_results_set [OF this] r show ?thesis by force
qed

lemma main_governments:
  assumes "main tab up scorer pc pg gen df0 uc0 ug0 = Inr out"
  shows "e' \<in> set (registry_governments out) \<longleftrightarrow>
           (\<exists>e \<in> set ug0. \<exists>n. preprocess_text tab up (government_entity e) = Inr n
                                \<and> e' = e\<lparr>government_entity := n\<rparr>)"
proof -
  from assms obtain gnames where
    a: "apply_series (preprocess_text tab up) (map government_entity ug0) = Inr gnames" and
    r: "registry_governments out
          = map (\<lambda>rn. (fst rn)\<lparr>government_entity := snd rn\<rparr>) (zip ug0 gnames)"
    by (rule main_Inr)
  from a have "map (\<lambda>e. preprocess_text tab up (government_entity e)) ug0 = map Inr gnames"
    by (simp add: apply_series_Inr_iff comp_def)
  from zip_results_set [OF this] r show ?thesis by force
qed

lemma main_rows:
  assumes "main tab up scorer pc pg gen df0 uc0 ug0 = Inr out"
    and "preprocess_dataset tab up df0 = Inr df"
  shows "r \<in> set (resolved_table out) \<longleftrightarrow>
           source r \<in> set df
         \<and> exact_id company_name eiti_id_company (registry_companies out)
              (Company (source r)) (out_eiti_id_company r)
         \<and> exact_id government_entity eiti_id_government (registry_governments out)
              (Government_entity (source r)) (out_eiti_id_government r)"
proof -
  from assms(1) obtain df' where
    "preprocess_dataset tab up df0 = Inr df'" and
    "resolved_table out =
       map as_resolved
         (merge_identifiers df'
            (merge_inner Company company_name df' (registry_companies out))
            (merge_inner Government_entity government_entity df' (registry_governments out)))"
    by (rule main_Inr)
  with assms(2) show ?thesis by (simp only: resolved_rows) simp
qed

lemma company_row_identifier:
  assumes run: "main tab up scorer pc pg gen df0 uc0 ug0 = Inr out"
    and r: "r \<in> set (resolved_table out)"
    and e: "e \<in> set uc0" "preprocess_text tab up (company_name e) = Inr (Company (source r))"
  shows "\<exists>e' \<in> set uc0. preprocess_text tab up (company_name e') = Inr (Company (source r))
           \<and> out_eiti_id_company r = eiti_id_company e'"
proof -
  obtain df where df: "preprocess_dataset tab up df0 = Inr df"
    using run by (rule main_Inr)
  from e have "e\<lparr>company_name := Company (source r)\<rparr> \<in> set (registry_companies out)"
    unfolding main_companies [OF run] by blast
  then have "\<exists>x \<in> set (registry_companies out). company_name x = Company (source r)"
    by force
  with r obtain x where x: "x \<in> set (registry_companies out)"
      "company_name x = Company (source r)" "out_eiti_id_company r = eiti_id_company x"
    unfolding main_rows [OF run df] exact_id_def by (auto split: if_splits)
  from x(1) obtain e' n where "e' \<in> set uc0" "preprocess_text tab up (company_name e') = Inr n"
      "x = e'\<lparr>company_name := n\<rparr>"
    unfolding main_companies [OF run] by blast
  with x show ?thesis by auto
qed

lemma government_row_identifier:
  assumes run: "main tab up scorer pc pg gen df0 uc0 ug0 = Inr out"
    and r: "r \<in> set (resolved_table out)"
    and e: "e \<in> set ug0"
      "preprocess_text tab up (government_entity e) = Inr (Government_entity (source r))"
  shows "\<exists>e' \<in> set ug0.
           preprocess_text tab up (government_entity e') = Inr (Government_entity (source r))
           \<and> out_eiti_id_government r = eiti_id_government e'"
proof -
  obtain df where df: "preprocess_dataset tab up df0 = Inr df"
    using run by (rule main_Inr)
  from e have "e\<lparr>government_entity := Government_entity (source r)\<rparr>
                 \<in> set (registry_governments out)"
    unfolding main_governments [OF run] by blast
  then have "\<exists>x \<in> set (registry_governments out).
               government_entity x = Government_entity (source r)"
    by force
  with r obtain x where x: "x \<in> set (registry_governments out)"
      "government_entity x = Government_entity (source r)"
      "out_eiti_id_government r = eiti_id_government x"
    unfolding main_rows [OF run df] exact_id_def by (auto split: if_splits)
  from x(1) obtain e' n where "e' \<in> set ug0"
      "preprocess_text tab up (government_entity e') = Inr n"
      "x = e'\<lparr>government_entity := n\<rparr>"
    unfolding main_governments [OF run] by blast
  with x show ?thesis by auto
qed

lemma company_row_exists:
  assumes run: "main tab up scorer pc pg gen df0 uc0 ug0 = Inr out"
    and df: "preprocess_dataset tab up df0 = Inr df"
    and u: "u \<in> set df"
    and e: "e \<in> set uc0" "preprocess_text tab up (company_name e) = Inr (Company u)"
  shows "\<exists>r \<in> set (resolved_table out). source r = u \<and> out_eiti_id_company r = eiti_id_company e"
proof -
  let ?x = "e\<lparr>company_name := Company u\<rparr>"
  from e have "?x \<in> set (registry_companies out)"
    unfolding main_companies [OF run] by blast
  moreover have "company_name ?x = Company u" "eiti_id_company ?x = eiti_id_company e"
    by simp_all
  ultimately have c: "exact_id company_name eiti_id_company (registry_companies out)
                        (Company u) (eiti_id_company e)"
    unfolding exact_id_def by metis
  obtain g where g: "exact_id government_entity eiti_id_government (registry_governments out)
                       (Government_entity u) g"
    using exact_id_total by blast
  let ?r = "\<lparr>source = u, out_eiti_id_company = eiti_id_company e, out_eiti_id_government = g\<rparr>"
  from u c g have "?r \<in> set (resolved_table out)"
    unfolding main_rows [OF run df] by simp
  then show ?thesis by force
qed

lemma government_row_exists:
  assumes run: "main tab up scorer pc pg gen df0 uc0 ug0 = Inr out"
    and df: "preprocess_dataset tab up df0 = Inr df"
    and u: "u \<in> set df"
    and e: "e \<in> set ug0" "preprocess_text tab up (government_entity e) = Inr (Government_entity u)"
  shows "\<exists>r \<in> set (resolved_table out).
           source r = u \<and> out_eiti_id_government r = eiti_id_government e"
proof -
  let ?x = "e\<lparr>government_entity := Government_entity u\<rparr>"
  from e have "?x \<in> set (registry_governments out)"
    unfolding main_governments [OF run] by blast
  moreover have "government_entity ?x = Government_entity u"
      "eiti_id_government ?x = eiti_id_government e"
    by simp_all
  ultimately have g: "exact_id government_entity eiti_id_government (registry_governments out)
                        (Government_entity u) (eiti_id_government e)"
    unfolding exact_id_def by metis
  obtain c where c: "exact_id company_name eiti_id_company (registry_companies out) (Company u) c"
    using exact_id_total by blast
  let ?r = "\<lparr>source = u, out_eiti_id_company = c, out_eiti_id_government = eiti_id_government e\<rparr>"
  from u c g have "?r \<in> set (resolved_table out)"
    unfolding main_rows [OF run df] by simp
  then show ?thesis by force
qed

text \<open>
  Whenever \<open>main\<close> returns, a row of the resolved table whose name is not the
  normalised name of any reference entity has a missing identifier, whatever
  identifier \<open>display_unmatched\<close> or \<open>validate_matching\<close> stored for it in the frame
  of unmatched rows.
\<close>

lemma unmatched_company_stays_missing:
  assumes run: "main tab up scorer pc pg gen df0 uc0 ug0 = Inr out"
    and r: "r \<in> set (resolved_table out)"
    and none: "\<forall>e \<in> set uc0. preprocess_text tab up (company_name e) \<noteq> Inr (Company (source r))"
  shows "out_eiti_id_company r = NaN"
proof -
  obtain df where df: "preprocess_dataset tab up df0 = Inr df"
    using run by (rule main_Inr)
  have "\<not> (\<exists>x \<in> set (registry_companies out). company_name x = Company (source r))"
  proof
    assume "\<exists>x \<in> set (registry_companies out). company_name x = Company (source r)"
    then obtain x where "x \<in> set (registry_companies out)" "company_name x = Company (source r)"
      by blast
    then obtain e n where "e \<in> set uc0" "preprocess_text tab up (company_name e) = Inr n"
      "n = Company (source r)"
      unfolding main_companies [OF run] by auto
    with none show False by blast
  qed
  with r show ?thesis
    unfolding main_rows [OF run df] exact_id_def by simp
qed

lemma unmatched_government_stays_missing:
  assumes run: "main tab up scorer pc pg gen df0 uc0 ug0 = Inr out"
    and r: "r \<in> set (resolved_table out)"
    and none: "\<forall>e \<in> set ug0.
                 preprocess_text tab up (government_entity e) \<noteq> Inr (Government_entity (source r))"
  shows "out_eiti_id_government r = NaN"
proof -
  obtain df where df: "preprocess_dataset tab up df0 = Inr df"
    using run by (rule main_Inr)
  have "\<not> (\<exists>x \<in> set (registry_governments out).
              government_entity x = Government_entity (source r))"
  proof
    assume "\<exists>x \<in> set (registry_governments out).
              government_entity x = Government_entity (source r)"
    then obtain x where "x \<in> set (registry_governments out)"
      "government_entity x = Government_entity (source r)"
      by blast
    then obtain e n where "e \<in> set ug0" "preprocess_text tab up (government_entity e) = Inr n"
      "n = Government_entity (source r)"
      unfolding main_governments [OF run] by auto
    with none show False by blast
  qed
  with r show ?thesis
    unfolding main_rows [OF run df] exact_id_def by simp
qed

text \<open>
  C1 fails on the code. An upload of one row whose company \<open>z\<close> is not in the registry
  (which holds the company \<open>a\<close>), with the operator leaving \<open>No potential match\<close>:
  the row is given a new identifier in \<open>unmatched_companies\<close>, but that series is
  indexed by company name and the merged frame by position, so \<open>combine_first\<close> finds
  nothing to fill and the column \<open>eiti_id_company\<close> of the row stays missing.
\<close>

theorem unmatched_record_keeps_missing_identifier:
  "main (\<lambda>c. []) (\<lambda>c. [c]) (\<lambda>q c. 0) (\<lambda>i. 0) (\<lambda>i. 0) (\<lambda>n. [n])
     [\<lparr>Company = Str [122], Government_entity = Str [109], passthrough = []\<rparr>]
     [\<lparr>company_name = Str [97], government_entity = Str [109], eiti_id_company = Str [49],
        eiti_id_government = Str [50], other_columns = []\<rparr>]
     [\<lparr>company_name = Str [97], government_entity = Str [109], eiti_id_company = Str [49],
        eiti_id_government = Str [50], other_columns = []\<rparr>]
   = Inr \<lparr>resolved_table =
       [\<lparr>source = \<lparr>Company = Str [90], Government_entity = Str [77], passthrough = []\<rparr>,
        out_eiti_id_company = NaN, out_eiti_id_government = Str [50]\<rparr>],
     registry_companies =
       [\<lparr>company_name = Str [65], government_entity = Str [109], eiti_id_company = Str [49],
        eiti_id_government = Str [50], other_columns = []\<rparr>],
     registry_governments =
       [\<lparr>company_name = Str [97], government_entity = Str [77], eiti_id_company = Str [49],
        eiti_id_government = Str [50], other_columns = []\<rparr>]\<rparr>"
  by code_simp

text \<open>
  C5 fails on the code. With an empty company registry, \<open>extractOne\<close> returns \<open>None\<close>
  for the unmatched company, \<open>get_potential_matches\<close> subscripts it, and the run ends
  in \<open>TypeError\<close> before any identifier is assigned.
\<close>

theorem empty_registry_raises:
  "main (\<lambda>c. []) (\<lambda>c. [c]) (\<lambda>q c. 0) (\<lambda>i. 0) (\<lambda>i. 0) (\<lambda>n. [n])
     [\<lparr>Company = Str [122], Government_entity = Str [109], passthrough = []\<rparr>]
     []
     [\<lparr>company_name = Str [97], government_entity = Str [109], eiti_id_company = Str [49],
        eiti_id_government = Str [50], other_columns = []\<rparr>]
   = Inl TypeError"
  by code_simp

lemma merge_inner_empty: "merge_inner kl kr df [] = []"
  by (induction df) (simp_all add: merge_inner_def)

lemma empty_pool_fails:
  "\<exists>e. main tab up scorer pc pg gen df0 [] ug0 = Inl e"
proof (cases "df0 = []")
  case True
  then show ?thesis by (simp add: main_def)
next
  case ne: False
  show ?thesis
  proof (cases "preprocess_dataset tab up df0")
  case (Inl e)
  with ne show ?thesis by (simp add: main_def)
next
  case (Inr df)
  with ne have "df \<noteq> []"
    using preprocess_dataset_rows(1) [OF Inr] by auto
  then obtain u us where df: "df = u # us" by (cases df) auto
  have s: "get_potential_matches scorer (map (\<lambda>ir. Company (snd ir))
             (unmatched_frame Company df [])) [] = Inl TypeError"
    unfolding df unmatched_frame_def get_potential_matches_def extractOne_def
    by (simp add: upt_rec)
  show ?thesis
  proof (cases "apply_series (preprocess_text tab up) (map government_entity ug0)")
    case (Inl e)
    with ne Inr show ?thesis by (simp add: main_def)
  next
    case g: (Inr gnames)
    with ne Inr s show ?thesis by (simp add: main_def merge_inner_empty Let_def)
  qed
qed
qed

text \<open>
  C2 as stated fails: two entities of the government registry, \<open>m\<close> with identifier
  \<open>2\<close> and \<open>M\<close> with identifier \<open>4\<close>, have the normalised name of the record's
  government entity \<open>m\<close>. The record has two rows in the resolved table; the first
  one does not bear the identifier of the second entity, nor the second one that of
  the first.
\<close>

theorem exact_match_two_identifiers:
  "main (\<lambda>c. []) (\<lambda>c. [c]) (\<lambda>q c. 0) (\<lambda>i. 0) (\<lambda>i. 0) (\<lambda>n. [n])
     [\<lparr>Company = Str [97], Government_entity = Str [109], passthrough = []\<rparr>]
     [\<lparr>company_name = Str [97], government_entity = Str [109], eiti_id_company = Str [49],
        eiti_id_government = Str [50], other_columns = []\<rparr>]
     [\<lparr>company_name = Str [97], government_entity = Str [109], eiti_id_company = Str [49],
        eiti_id_government = Str [50], other_columns = []\<rparr>,
      \<lparr>company_name = Str [97], government_entity = Str [77], eiti_id_company = Str [51],
        eiti_id_government = Str [52], other_columns = []\<rparr>]
   = Inr \<lparr>resolved_table =
       [\<lparr>source = \<lparr>Company = Str [65], Government_entity = Str [77], passthrough = []\<rparr>,
        out_eiti_id_company = Str [49], out_eiti_id_government = Str [50]\<rparr>,
        \<lparr>source = \<lparr>Company = Str [65], Government_entity = Str [77], passthrough = []\<rparr>,
        out_eiti_id_company = Str [49], out_eiti_id_government = Str [52]\<rparr>],
     registry_companies =
       [\<lparr>company_name = Str [65], government_entity = Str [109], eiti_id_company = Str [49],
        eiti_id_government = Str [50], other_columns = []\<rparr>],
     registry_governments =
       [\<lparr>company_name = Str [97], government_entity = Str [77], eiti_id_company = Str [49],
        eiti_id_government = Str [50], other_columns = []\<rparr>,
        \<lparr>company_name = Str [97], government_entity = Str [77], eiti_id_company = Str [51],
        eiti_id_government = Str [52], other_columns = []\<rparr>]\<rparr>"
  by code_simp

text \<open>
  C2, amended. If \<open>main\<close> returns and the normalised name of a record equals the
  normalised name of a reference entity, and every reference entity of that
  normalised name has the identifier of this one, then the record has a row in the
  resolved table and each of its rows bears that identifier: for the companies and
  for the government entities, whatever the scorer suggests and the operator picks.
\<close>

theorem exact_match_decides_identifier:
  assumes "main tab up scorer pc pg gen df0 uc0 ug0 = Inr out"
    and "preprocess_dataset tab up df0 = Inr df"
    and "i < length df0"
  shows "(\<forall>e \<in> set uc0.
            preprocess_text tab up (company_name e) = preprocess_text tab up (Company (df0 ! i))
            \<and> (\<forall>e' \<in> set uc0.
                   preprocess_text tab up (company_name e')
                     = preprocess_text tab up (Company (df0 ! i))
                   \<longrightarrow> eiti_id_company e' = eiti_id_company e)
            \<longrightarrow> (\<exists>r \<in> set (resolved_table out). source r = df ! i)
                \<and> (\<forall>r \<in> set (resolved_table out).
                       source r = df ! i \<longrightarrow> out_eiti_id_company r = eiti_id_company e))
     \<and> (\<forall>e \<in> set ug0.
            preprocess_text tab up (government_entity e)
              = preprocess_text tab up (Government_entity (df0 ! i))
            \<and> (\<forall>e' \<in> set ug0.
                   preprocess_text tab up (government_entity e')
                     = preprocess_text tab up (Government_entity (df0 ! i))
                   \<longrightarrow> eiti_id_government e' = eiti_id_government e)
            \<longrightarrow> (\<exists>r \<in> set (resolved_table out). source r = df ! i)
                \<and> (\<forall>r \<in> set (resolved_table out).
                       source r = df ! i \<longrightarrow> out_eiti_id_government r = eiti_id_government e))"
proof -
  note run = assms(1) and df = assms(2)
  from assms(3) have u: "df ! i \<in> set df"
    using preprocess_dataset_rows(1) [OF df] by simp
  from preprocess_dataset_rows(2) [OF df assms(3)]
  have c: "preprocess_text tab up (Company (df0 ! i)) = Inr (Company (df ! i))"
    and g: "preprocess_text tab up (Government_entity (df0 ! i)) = Inr (Government_entity (df ! i))"
    by simp_all
  have company: "(\<exists>r \<in> set (resolved_table out). source r = df ! i)
      \<and> (\<forall>r \<in> set (resolved_table out).
             source r = df ! i \<longrightarrow> out_eiti_id_company r = eiti_id_company e)"
    if e: "e \<in> set uc0"
      "preprocess_text tab up (company_name e) = preprocess_text tab up (Company (df0 ! i))"
      and same: "\<forall>e' \<in> set uc0.
             preprocess_text tab up (company_name e') = preprocess_text tab up (Company (df0 ! i))
             \<longrightarrow> eiti_id_company e' = eiti_id_company e"
    for e
  proof
    from e c have n: "preprocess_text tab up (company_name e) = Inr (Company (df ! i))" by simp
    from company_row_exists [OF run df u e(1) n]
    show "\<exists>r \<in> set (resolved_table out). source r = df ! i" by blast
    show "\<forall>r \<in> set (resolved_table out).
            source r = df ! i \<longrightarrow> out_eiti_id_company r = eiti_id_company e"
    proof (intro ballI impI)
      fix r assume r: "r \<in> set (resolved_table out)" "source r = df ! i"
      with n have "preprocess_text tab up (company_name e) = Inr (Company (source r))" by simp
      from company_row_identifier [OF run r(1) e(1) this] obtain e' where
        "e' \<in> set uc0" "preprocess_text tab up (company_name e') = Inr (Company (source r))"
        "out_eiti_id_company r = eiti_id_company e'" by blast
      with same r(2) c show "out_eiti_id_company r = eiti_id_company e" by simp
    qed
  qed
  have government: "(\<exists>r \<in> set (resolved_table out). source r = df ! i)
      \<and> (\<forall>r \<in> set (resolved_table out).
             source r = df ! i \<longrightarrow> out_eiti_id_government r = eiti_id_government e)"
    if e: "e \<in> set ug0"
      "preprocess_text tab up (government_entity e)
         = preprocess_text tab up (Government_entity (df0 ! i))"
      and same: "\<forall>e' \<in> set ug0.
             preprocess_text tab up (government_entity e')
               = preprocess_text tab up (Government_entity (df0 ! i))
             \<longrightarrow> eiti_id_government e' = eiti_id_government e"
    for e
  proof
    from e g have n: "preprocess_text tab up (government_entity e)
                        = Inr (Government_entity (df ! i))" by simp
    from government_row_exists [OF run df u e(1) n]
    show "\<exists>r \<in> set (resolved_table out). source r = df ! i" by blast
    show "\<forall>r \<in> set (resolved_table out).
            source r = df ! i \<longrightarrow> out_eiti_id_government r = eiti_id_government e"
    proof (intro ballI impI)
      fix r assume r: "r \<in> set (resolved_table out)" "source r = df ! i"
      with n have "preprocess_text tab up (government_entity e)
                     = Inr (Government_entity (source r))" by simp
      from government_row_identifier [OF run r(1) e(1) this] obtain e' where
        "e' \<in> set ug0"
        "preprocess_text tab up (government_entity e') = Inr (Government_entity (source r))"
        "out_eiti_id_government r = eiti_id_government e'" by blast
      with same r(2) g show "out_eiti_id_government r = eiti_id_government e" by simp
    qed
  qed
  from company government show ?thesis by blast
qed

theorem exact_match_decides_identifier_witness:
  "main (\<lambda>c. []) (\<lambda>c. [c]) (\<lambda>q c. 0) (\<lambda>i. 1) (\<lambda>i. 1) (\<lambda>n. [n])
     [\<lparr>Company = Str [97], Government_entity = Str [109], passthrough = []\<rparr>]
     [\<lparr>company_name = Str [97], government_entity = Str [109], eiti_id_company = Str [49],
        eiti_id_government = Str [50], other_columns = []\<rparr>]
     [\<lparr>company_name = Str [97], government_entity = Str [109], eiti_id_company = Str [49],
        eiti_id_government = Str [50], other_columns = []\<rparr>]
   = Inr \<lparr>resolved_table =
       [\<lparr>source = \<lparr>Company = Str [65], Government_entity = Str [77], passthrough = []\<rparr>,
        out_eiti_id_company = Str [49], out_eiti_id_government = Str [50]\<rparr>],
     registry_companies =
       [\<lparr>company_name = Str [65], government_entity = Str [109], eiti_id_company = Str [49],
        eiti_id_government = Str [50], other_columns = []\<rparr>],
     registry_governments =
       [\<lparr>company_name = Str [97], government_entity = Str [77], eiti_id_company = Str [49],
        eiti_id_government = Str [50], other_columns = []\<rparr>]\<rparr>
   \<and> out_eiti_id_company
        (\<lparr>source = \<lparr>Company = Str [65], Government_entity = Str [77], passthrough = []\<rparr>,
        out_eiti_id_company = Str [49], out_eiti_id_government = Str [50]\<rparr>) = Str [49]"
proof -
  let ?raw = "\<lparr>Company = Str [97], Government_entity = Str [109], passthrough = []\<rparr>"
  let ?u = "\<lparr>Company = Str [65], Government_entity = Str [77], passthrough = []\<rparr>"
  let ?e = "\<lparr>company_name = Str [97], government_entity = Str [109], eiti_id_company = Str [49],
        eiti_id_government = Str [50], other_columns = []\<rparr>"
  let ?r = "\<lparr>source = \<lparr>Company = Str [65], Government_entity = Str [77], passthrough = []\<rparr>,
        out_eiti_id_company = Str [49], out_eiti_id_government = Str [50]\<rparr>"
  let ?out = "\<lparr>resolved_table =
       [\<lparr>source = \<lparr>Company = Str [65], Government_entity = Str [77], passthrough = []\<rparr>,
        out_eiti_id_company = Str [49], out_eiti_id_government = Str [50]\<rparr>],
     registry_companies =
       [\<lparr>company_name = Str [65], government_entity = Str [109], eiti_id_company = Str [49],
        eiti_id_government = Str [50], other_columns = []\<rparr>],
     registry_governments =
       [\<lparr>company_name = Str [97], government_entity = Str [77], eiti_id_company = Str [49],
        eiti_id_government = Str [50], other_columns = []\<rparr>]\<rparr>"
  have run: "main (\<lambda>c. []) (\<lambda>c. [c]) (\<lambda>q c. 0) (\<lambda>i. 1) (\<lambda>i. 1) (\<lambda>n. [n]) [?raw] [?e] [?e]
               = Inr ?out"
    by code_simp
  have df: "preprocess_dataset (\<lambda>c. []) (\<lambda>c. [c]) [?raw] = Inr [?u]"
    by code_simp
  have i: "(0::nat) < length [?raw]" by simp
  have n: "preprocess_text (\<lambda>c. []) (\<lambda>c. [c]) (company_name ?e)
             = preprocess_text (\<lambda>c. []) (\<lambda>c. [c]) (Company ([?raw] ! 0))"
    by code_simp
  from exact_match_decides_identifier [OF run df i]
  have "\<forall>e \<in> set [?e].
            preprocess_text (\<lambda>c. []) (\<lambda>c. [c]) (company_name e)
              = preprocess_text (\<lambda>c. []) (\<lambda>c. [c]) (Company ([?raw] ! 0))
            \<and> (\<forall>e' \<in> set [?e].
                   preprocess_text (\<lambda>c. []) (\<lambda>c. [c]) (company_name e')
                     = preprocess_text (\<lambda>c. []) (\<lambda>c. [c]) (Company ([?raw] ! 0))
                   \<longrightarrow> eiti_id_company e' = eiti_id_company e)
            \<longrightarrow> (\<forall>r \<in> set (resolved_table ?out).
                       source r = [?u] ! 0 \<longrightarrow> out_eiti_id_company r = eiti_id_company e)"
    by blast
  with n have "\<forall>r \<in> set (resolved_table ?out).
                 source r = [?u] ! 0 \<longrightarrow> out_eiti_id_company r = eiti_id_company ?e"
    by simp
  then have "out_eiti_id_company ?r = Str [49]" by simp
  with run show ?thesis by (rule conjI)
qed

text \<open>
  C4 as stated fails: the company registry holds \<open>A\<close> with identifier \<open>1\<close> and then
  \<open>a\<close> with identifier \<open>3\<close>, and the upload one record of company \<open>a\<close>. The inner
  merge pairs the record with both entities, and the resolved table has two rows for
  it, the second with the identifier of the second entity.
\<close>

theorem duplicate_names_all_matched:
  "main (\<lambda>c. []) (\<lambda>c. [c]) (\<lambda>q c. 0) (\<lambda>i. 0) (\<lambda>i. 0) (\<lambda>n. [n])
     [\<lparr>Company = Str [97], Government_entity = Str [109], passthrough = []\<rparr>]
     [\<lparr>company_name = Str [65], government_entity = Str [109], eiti_id_company = Str [49],
        eiti_id_government = Str [50], other_columns = []\<rparr>,
      \<lparr>company_name = Str [97], government_entity = Str [109], eiti_id_company = Str [51],
        eiti_id_government = Str [50], other_columns = []\<rparr>]
     [\<lparr>company_name = Str [97], government_entity = Str [109], eiti_id_company = Str [49],
        eiti_id_government = Str [50], other_columns = []\<rparr>]
   = Inr \<lparr>resolved_table =
       [\<lparr>source = \<lparr>Company = Str [65], Government_entity = Str [77], passthrough = []\<rparr>,
        out_eiti_id_company = Str [49], out_eiti_id_government = Str [50]\<rparr>,
        \<lparr>source = \<lparr>Company = Str [65], Government_entity = Str [77], passthrough = []\<rparr>,
        out_eiti_id_company = Str [51], out_eiti_id_government = Str [50]\<rparr>],
     registry_companies =
       [\<lparr>company_name = Str [65], government_entity = Str [109], eiti_id_company = Str [49],
        eiti_id_government = Str [50], other_columns = []\<rparr>,
        \<lparr>company_name = Str [65], government_entity = Str [109], eiti_id_company = Str [51],
        eiti_id_government = Str [50], other_columns = []\<rparr>],
     registry_governments =
       [\<lparr>company_name = Str [97], government_entity = Str [77], eiti_id_company = Str [49],
        eiti_id_government = Str [50], other_columns = []\<rparr>]\<rparr>"
  by code_simp

text \<open>
  C4, amended. The exact matcher raises nothing and keeps every reference entity whose
  normalised name is that of the record, in the order of the registry; when \<open>main\<close>
  returns, each of these entities gives the record a row of the resolved table with
  its identifier.
\<close>

theorem exact_match_keeps_every_entity:
  assumes "main tab up scorer pc pg gen df0 uc0 ug0 = Inr out"
    and "preprocess_dataset tab up df0 = Inr df"
    and "i < length df0"
  shows "(\<forall>e \<in> set uc0.
            preprocess_text tab up (company_name e) = preprocess_text tab up (Company (df0 ! i))
            \<longrightarrow> (\<exists>r \<in> set (resolved_table out).
                   source r = df ! i \<and> out_eiti_id_company r = eiti_id_company e))
     \<and> (\<forall>e \<in> set ug0.
            preprocess_text tab up (government_entity e)
              = preprocess_text tab up (Government_entity (df0 ! i))
            \<longrightarrow> (\<exists>r \<in> set (resolved_table out).
                   source r = df ! i \<and> out_eiti_id_government r = eiti_id_government e))
     \<and> map snd (merge_inner Company company_name [df ! i] (registry_companies out))
           = filter (\<lambda>e. company_name e = Company (df ! i)) (registry_companies out)
     \<and> map snd (merge_inner Government_entity government_entity [df ! i]
                     (registry_governments out))
           = filter (\<lambda>e. government_entity e = Government_entity (df ! i))
               (registry_governments out)"
proof -
  note run = assms(1) and df = assms(2)
  from assms(3) have u: "df ! i \<in> set df"
    using preprocess_dataset_rows(1) [OF df] by simp
  from preprocess_dataset_rows(2) [OF df assms(3)]
  have c: "preprocess_text tab up (Company (df0 ! i)) = Inr (Company (df ! i))"
    and g: "preprocess_text tab up (Government_entity (df0 ! i)) = Inr (Government_entity (df ! i))"
    by simp_all
  have company: "\<exists>r \<in> set (resolved_table out).
                   source r = df ! i \<and> out_eiti_id_company r = eiti_id_company e"
    if "e \<in> set uc0"
      "preprocess_text tab up (company_name e) = preprocess_text tab up (Company (df0 ! i))"
    for e
    using company_row_exists [OF run df u that(1)] that(2) c by simp
  have government: "\<exists>r \<in> set (resolved_table out).
                   source r = df ! i \<and> out_eiti_id_government r = eiti_id_government e"
    if "e \<in> set ug0"
      "preprocess_text tab up (government_entity e)
         = preprocess_text tab up (Government_entity (df0 ! i))"
    for e
    using government_row_exists [OF run df u that(1)] that(2) g by simp
  have order: "map snd (merge_inner kl kr [l] R) = filter (\<lambda>e. kr e = kl l) R"
    for kl :: "urow \<Rightarrow> cell" and kr :: "rrow \<Rightarrow> cell" and l R
    by (simp add: merge_inner_def comp_def)
  from company government order show ?thesis by blast
qed

theorem exact_match_keeps_every_entity_witness:
  "main (\<lambda>c. []) (\<lambda>c. [c]) (\<lambda>q c. 0) (\<lambda>i. 0) (\<lambda>i. 0) (\<lambda>n. [n])
     [\<lparr>Company = Str [97], Government_entity = Str [109], passthrough = []\<rparr>]
     [\<lparr>company_name = Str [65], government_entity = Str [109], eiti_id_company = Str [49],
        eiti_id_government = Str [50], other_columns = []\<rparr>,
      \<lparr>company_name = Str [97], government_entity = Str [109], eiti_id_company = Str [51],
        eiti_id_government = Str [50], other_columns = []\<rparr>]
     [\<lparr>company_name = Str [97], government_entity = Str [109], eiti_id_company = Str [49],
        eiti_id_government = Str [50], other_columns = []\<rparr>]
   = Inr \<lparr>resolved_table =
       [\<lparr>source = \<lparr>Company = Str [65], Government_entity = Str [77], passthrough = []\<rparr>,
        out_eiti_id_company = Str [49], out_eiti_id_government = Str [50]\<rparr>,
        \<lparr>source = \<lparr>Company = Str [65], Government_entity = Str [77], passthrough = []\<rparr>,
        out_eiti_id_company = Str [51], out_eiti_id_government = Str [50]\<rparr>],
     registry_companies =
       [\<lparr>company_name = Str [65], government_entity = Str [109], eiti_id_company = Str [49],
        eiti_id_government = Str [50], other_columns = []\<rparr>,
        \<lparr>company_name = Str [65], government_entity = Str [109], eiti_id_company = Str [51],
        eiti_id_government = Str [50], other_columns = []\<rparr>],
     registry_governments =
       [\<lparr>company_name = Str [97], government_entity = Str [77], eiti_id_company = Str [49],
        eiti_id_government = Str [50], other_columns = []\<rparr>]\<rparr>
   \<and> Str [51] \<in> set (map out_eiti_id_company
        [\<lparr>source = \<lparr>Company = Str [65], Government_entity = Str [77], passthrough = []\<rparr>,
        out_eiti_id_company = Str [49], out_eiti_id_government = Str [50]\<rparr>,
         \<lparr>source = \<lparr>Company = Str [65], Government_entity = Str [77], passthrough = []\<rparr>,
        out_eiti_id_company = Str [51], out_eiti_id_government = Str [50]\<rparr>])"
proof -
  let ?raw = "\<lparr>Company = Str [97], Government_entity = Str [109], passthrough = []\<rparr>"
  let ?u = "\<lparr>Company = Str [65], Government_entity = Str [77], passthrough = []\<rparr>"
  let ?a = "\<lparr>company_name = Str [65], government_entity = Str [109], eiti_id_company = Str [49],
        eiti_id_government = Str [50], other_columns = []\<rparr>"
  let ?b = "\<lparr>company_name = Str [97], government_entity = Str [109], eiti_id_company = Str [51],
        eiti_id_government = Str [50], other_columns = []\<rparr>"
  let ?g = "\<lparr>company_name = Str [97], government_entity = Str [109], eiti_id_company = Str [49],
        eiti_id_government = Str [50], other_columns = []\<rparr>"
  let ?out = "\<lparr>resolved_table =
       [\<lparr>source = \<lparr>Company = Str [65], Government_entity = Str [77], passthrough = []\<rparr>,
        out_eiti_id_company = Str [49], out_eiti_id_government = Str [50]\<rparr>,
        \<lparr>source = \<lparr>Company = Str [65], Government_entity = Str [77], passthrough = []\<rparr>,
        out_eiti_id_company = Str [51], out_eiti_id_government = Str [50]\<rparr>],
     registry_companies =
       [\<lparr>company_name = Str [65], government_entity = Str [109], eiti_id_company = Str [49],
        eiti_id_government = Str [50], other_columns = []\<rparr>,
        \<lparr>company_name = Str [65], government_entity = Str [109], eiti_id_company = Str [51],
        eiti_id_government = Str [50], other_columns = []\<rparr>],
     registry_governments =
       [\<lparr>company_name = Str [97], government_entity = Str [77], eiti_id_company = Str [49],
        eiti_id_government = Str [50], other_columns = []\<rparr>]\<rparr>"
  have run: "main (\<lambda>c. []) (\<lambda>c. [c]) (\<lambda>q c. 0) (\<lambda>i. 0) (\<lambda>i. 0) (\<lambda>n. [n]) [?raw] [?a, ?b] [?g]
               = Inr ?out"
    by code_simp
  have df: "preprocess_dataset (\<lambda>c. []) (\<lambda>c. [c]) [?raw] = Inr [?u]"
    by code_simp
  have i: "(0::nat) < length [?raw]" by simp
  have n: "preprocess_text (\<lambda>c. []) (\<lambda>c. [c]) (company_name ?b)
             = preprocess_text (\<lambda>c. []) (\<lambda>c. [c]) (Company ([?raw] ! 0))"
    by code_simp
  from exact_match_keeps_every_entity [OF run df i]
  have "\<forall>e \<in> set [?a, ?b].
            preprocess_text (\<lambda>c. []) (\<lambda>c. [c]) (company_name e)
              = preprocess_text (\<lambda>c. []) (\<lambda>c. [c]) (Company ([?raw] ! 0))
            \<longrightarrow> (\<exists>r \<in> set (resolved_table ?out).
                   source r = [?u] ! 0 \<and> out_eiti_id_company r = eiti_id_company e)"
    by blast
  with n have "\<exists>r \<in> set (resolved_table ?out).
                   source r = [?u] ! 0 \<and> out_eiti_id_company r = eiti_id_company ?b"
    by simp
  then have "Str [51] \<in> set (map out_eiti_id_company (resolved_table ?out))"
    by force
  then have "Str [51] \<in> set (map out_eiti_id_company
        [\<lparr>source = \<lparr>Company = Str [65], Government_entity = Str [77], passthrough = []\<rparr>,
        out_eiti_id_company = Str [49], out_eiti_id_government = Str [50]\<rparr>,
         \<lparr>source = \<lparr>Company = Str [65], Government_entity = Str [77], passthrough = []\<rparr>,
        out_eiti_id_company = Str [51], out_eiti_id_government = Str [50]\<rparr>])"
    by simp
  with run show ?thesis by (rule conjI)
qed

text \<open>
  C7 as stated fails: line 84 stores the normalised names in the column
  \<open>company_name\<close> of \<open>unique_companies\<close>, and line 85 does so for
  \<open>government_entity\<close>. The registry is loaded with the company name \<open>a\<close> and the
  government name \<open>m\<close>; when the run ends the frames hold \<open>A\<close> and \<open>M\<close>.
\<close>

theorem registry_names_overwritten:
  "main (\<lambda>c. []) (\<lambda>c. [c]) (\<lambda>q c. 0) (\<lambda>i. 0) (\<lambda>i. 0) (\<lambda>n. [n])
     [\<lparr>Company = Str [65], Government_entity = Str [77], passthrough = []\<rparr>]
     [\<lparr>company_name = Str [97], government_entity = Str [109], eiti_id_company = Str [49],
        eiti_id_government = Str [50], other_columns = []\<rparr>]
     [\<lparr>company_name = Str [97], government_entity = Str [109], eiti_id_company = Str [49],
        eiti_id_government = Str [50], other_columns = []\<rparr>]
   = Inr \<lparr>resolved_table =
       [\<lparr>source = \<lparr>Company = Str [65], Government_entity = Str [77], passthrough = []\<rparr>,
        out_eiti_id_company = Str [49], out_eiti_id_government = Str [50]\<rparr>],
     registry_companies =
       [\<lparr>company_name = Str [65], government_entity = Str [109], eiti_id_company = Str [49],
        eiti_id_government = Str [50], other_columns = []\<rparr>],
     registry_governments =
       [\<lparr>company_name = Str [97], government_entity = Str [77], eiti_id_company = Str [49],
        eiti_id_government = Str [50], other_columns = []\<rparr>]\<rparr>"
  by code_simp

text \<open>
  C7, amended. When \<open>main\<close> returns, each registry frame has the rows it was loaded
  with, in the same order, every field as loaded except the name column that the
  frame is matched on (\<open>company_name\<close> in \<open>unique_companies\<close>, \<open>government_entity\<close>
  in \<open>unique_governments\<close>), which holds the normalised name.
\<close>

theorem registry_changes_names_only:
  assumes "main tab up scorer pc pg gen df0 uc0 ug0 = Inr out"
  shows "length (registry_companies out) = length uc0
     \<and> (\<forall>j < length uc0. \<exists>n.
            preprocess_text tab up (company_name (uc0 ! j)) = Inr n
            \<and> registry_companies out ! j = (uc0 ! j)\<lparr>company_name := n\<rparr>)
     \<and> length (registry_governments out) = length ug0
     \<and> (\<forall>j < length ug0. \<exists>n.
            preprocess_text tab up (government_entity (ug0 ! j)) = Inr n
            \<and> registry_governments out ! j = (ug0 ! j)\<lparr>government_entity := n\<rparr>)"
proof -
  from assms obtain cnames gnames where
    c: "apply_series (preprocess_text tab up) (map company_name uc0) = Inr cnames" and
    g: "apply_series (preprocess_text tab up) (map government_entity ug0) = Inr gnames" and
    rc: "registry_companies out = map (\<lambda>rn. (fst rn)\<lparr>company_name := snd rn\<rparr>) (zip uc0 cnames)" and
    rg: "registry_governments out
           = map (\<lambda>rn. (fst rn)\<lparr>government_entity := snd rn\<rparr>) (zip ug0 gnames)"
    by (rule main_Inr)
  from c have c': "map (\<lambda>e. preprocess_text tab up (company_name e)) uc0 = map Inr cnames"
    by (simp add: apply_series_Inr_iff comp_def)
  from g have g': "map (\<lambda>e. preprocess_text tab up (government_entity e)) ug0 = map Inr gnames"
    by (simp add: apply_series_Inr_iff comp_def)
  note lc = zip_results_nth(1) [OF c'] and lg = zip_results_nth(1) [OF g']
  have "\<exists>n. preprocess_text tab up (company_name (uc0 ! j)) = Inr n
            \<and> registry_companies out ! j = (uc0 ! j)\<lparr>company_name := n\<rparr>"
    if "j < length uc0" for j
    using zip_results_nth(2) [OF c' that] that lc rc by simp
  moreover have "\<exists>n. preprocess_text tab up (government_entity (ug0 ! j)) = Inr n
            \<and> registry_governments out ! j = (ug0 ! j)\<lparr>government_entity := n\<rparr>"
    if "j < length ug0" for j
    using zip_results_nth(2) [OF g' that] that lg rg by simp
  ultimately show ?thesis using lc lg rc rg by simp
qed

theorem registry_changes_names_only_witness:
  "main (\<lambda>c. []) (\<lambda>c. [c]) (\<lambda>q c. 0) (\<lambda>i. 0) (\<lambda>i. 0) (\<lambda>n. [n])
     [\<lparr>Company = Str [65], Government_entity = Str [77], passthrough = []\<rparr>]
     [\<lparr>company_name = Str [97], government_entity = Str [109], eiti_id_company = Str [49],
        eiti_id_government = Str [50], other_columns = []\<rparr>]
     [\<lparr>company_name = Str [97], government_entity = Str [109], eiti_id_company = Str [49],
        eiti_id_government = Str [50], other_columns = []\<rparr>]
   = Inr \<lparr>resolved_table =
       [\<lparr>source = \<lparr>Company = Str [65], Government_entity = Str [77], passthrough = []\<rparr>,
        out_eiti_id_company = Str [49], out_eiti_id_government = Str [50]\<rparr>],
     registry_companies =
       [\<lparr>company_name = Str [65], government_entity = Str [109], eiti_id_company = Str [49],
        eiti_id_government = Str [50], other_columns = []\<rparr>],
     registry_governments =
       [\<lparr>company_name = Str [97], government_entity = Str [77], eiti_id_company = Str [49],
        eiti_id_government = Str [50], other_columns = []\<rparr>]\<rparr>
   \<and> eiti_id_company (\<lparr>company_name = Str [65], government_entity = Str [109], eiti_id_company = Str [49],
        eiti_id_government = Str [50], other_columns = []\<rparr>) = Str [49]"
proof -
  let ?raw = "\<lparr>Company = Str [65], Government_entity = Str [77], passthrough = []\<rparr>"
  let ?e = "\<lparr>company_name = Str [97], government_entity = Str [109], eiti_id_company = Str [49],
        eiti_id_government = Str [50], other_columns = []\<rparr>"
  let ?e' = "\<lparr>company_name = Str [65], government_entity = Str [109], eiti_id_company = Str [49],
        eiti_id_government = Str [50], other_columns = []\<rparr>"
  let ?out = "\<lparr>resolved_table =
       [\<lparr>source = \<lparr>Company = Str [65], Government_entity = Str [77], passthrough = []\<rparr>,
        out_eiti_id_company = Str [49], out_eiti_id_government = Str [50]\<rparr>],
     registry_companies =
       [\<lparr>company_name = Str [65], government_entity = Str [109], eiti_id_company = Str [49],
        eiti_id_government = Str [50], other_columns = []\<rparr>],
     registry_governments =
       [\<lparr>company_name = Str [97], government_entity = Str [77], eiti_id_company = Str [49],
        eiti_id_government = Str [50], other_columns = []\<rparr>]\<rparr>"
  have run: "main (\<lambda>c. []) (\<lambda>c. [c]) (\<lambda>q c. 0) (\<lambda>i. 0) (\<lambda>i. 0) (\<lambda>n. [n]) [?raw] [?e] [?e]
               = Inr ?out"
    by code_simp
  from registry_changes_names_only [OF run]
  have "\<forall>j < length [?e]. \<exists>n.
            preprocess_text (\<lambda>c. []) (\<lambda>c. [c]) (company_name ([?e] ! j)) = Inr n
            \<and> registry_companies ?out ! j = ([?e] ! j)\<lparr>company_name := n\<rparr>"
    by blast
  then have "\<exists>n. registry_companies ?out ! 0 = ([?e] ! 0)\<lparr>company_name := n\<rparr>"
    by auto
  then obtain n where "registry_companies ?out ! 0 = ([?e] ! 0)\<lparr>company_name := n\<rparr>" ..
  then have "eiti_id_company (registry_companies ?out ! 0) = eiti_id_company ?e"
    by (simp only: nth_Cons_0 rrow.simps)
  then have "eiti_id_company ?e' = Str [49]" by simp
  with run show ?thesis by (rule conjI)
qed

end
